theory Spec2Isabelle
  imports Main "HOL-Library.Word" "HOL-Library.AList"
begin

section \<open>JavaScript strings\<close>

text \<open>
  A JavaScript string is a sequence of UTF-16 code units. The literals of the source are
  ASCII, so \<open>js\<close> turns an Isabelle literal into the string it denotes.
\<close>

type_synonym js_string = "16 word list"

definition js :: "string \<Rightarrow> js_string" where
  "js s = map of_char s"

text \<open>
  \<open>String.prototype.trim\<close> removes WhiteSpace and LineTerminator code points from both
  ends (ECMAScript 22.1.3.32): TAB, VT, FF, SP, NBSP, ZWNBSP, the Space_Separator
  category, and LF, CR, LS, PS.
\<close>

definition is_white_space :: "16 word \<Rightarrow> bool" where
  "is_white_space c \<longleftrightarrow>
     c = 0x0009 \<or> c = 0x000A \<or> c = 0x000B \<or> c = 0x000C \<or> c = 0x000D \<or> c = 0x0020 \<or>
     c = 0x00A0 \<or> c = 0x1680 \<or> (0x2000 \<le> c \<and> c \<le> 0x200A) \<or> c = 0x2028 \<or>
     c = 0x2029 \<or> c = 0x202F \<or> c = 0x205F \<or> c = 0x3000 \<or> c = 0xFEFF"

definition trim :: "js_string \<Rightarrow> js_string" where
  "trim s = rev (dropWhile is_white_space (rev (dropWhile is_white_space s)))"

text \<open>\<open>s.split('\n')\<close>: the pieces between line feeds; never an empty array.\<close>

fun split_lines :: "js_string \<Rightarrow> js_string list" where
  "split_lines [] = [[]]"
| "split_lines (c # cs) =
     (if c = 0x000A then [] # split_lines cs
      else (case split_lines cs of
              [] \<Rightarrow> [[c]]
            | l # ls \<Rightarrow> (c # l) # ls))"

definition startsWith :: "js_string \<Rightarrow> js_string \<Rightarrow> bool" where
  "startsWith s p \<longleftrightarrow> take (length p) s = p"

definition substring :: "js_string \<Rightarrow> nat \<Rightarrow> js_string" where
  "substring s n = drop n s"

text \<open>
  \<open>String(n)\<close> and \<open>n.toString()\<close> of an integer of magnitude below \<open>10^21\<close>: its
  decimal digits, with a minus sign when negative. The module applies it to the clock,
  to \<open>0\<close>, to \<open>300\<close> and to the configured timeout; from \<open>10^21\<close> on JavaScript prints
  the exponent form, so a configured timeout that large is outside this model.
\<close>

definition digit :: "nat \<Rightarrow> 16 word" where
  "digit d = of_nat (48 + d)"

fun digits :: "nat \<Rightarrow> js_string" where
  "digits n = (if n < 10 then [digit n] else digits (n div 10) @ [digit (n mod 10)])"

declare digits.simps [simp del]

definition String_of :: "int \<Rightarrow> js_string" where
  "String_of i = (if i < 0 then js ''-'' @ digits (nat (- i)) else digits (nat i))"

text \<open>
  \<open>JSON.stringify\<close> of an array of strings (ECMAScript 25.5.2, QuoteJSONString): each
  string between double quotes, with the two-character escapes, \<open>\uXXXX\<close> for the other
  control characters and for unpaired surrogates; the elements separated by commas
  between brackets.
\<close>

definition hex_digit :: "nat \<Rightarrow> 16 word" where
  "hex_digit d = (if d < 10 then of_nat (48 + d) else of_nat (87 + d))"

definition unicode_escape :: "16 word \<Rightarrow> js_string" where
  "unicode_escape c =
     [0x5C, 0x75, hex_digit (unat c div 4096), hex_digit (unat c div 256 mod 16),
      hex_digit (unat c div 16 mod 16), hex_digit (unat c mod 16)]"

definition is_high_surrogate :: "16 word \<Rightarrow> bool" where
  "is_high_surrogate c \<longleftrightarrow> 0xD800 \<le> c \<and> c \<le> 0xDBFF"

definition is_low_surrogate :: "16 word \<Rightarrow> bool" where
  "is_low_surrogate c \<longleftrightarrow> 0xDC00 \<le> c \<and> c \<le> 0xDFFF"

fun quote_chars :: "js_string \<Rightarrow> js_string" where
  "quote_chars [] = []"
| "quote_chars [c] =
     (if c = 0x08 then [0x5C, 0x62]
      else if c = 0x09 then [0x5C, 0x74]
      else if c = 0x0A then [0x5C, 0x6E]
      else if c = 0x0C then [0x5C, 0x66]
      else if c = 0x0D then [0x5C, 0x72]
      else if c = 0x22 then [0x5C, 0x22]
      else if c = 0x5C then [0x5C, 0x5C]
      else if c < 0x20 \<or> is_high_surrogate c \<or> is_low_surrogate c then unicode_escape c
      else [c])"
| "quote_chars (c # d # ds) =
     (if is_high_surrogate c \<and> is_low_surrogate d then c # d # quote_chars ds
      else quote_chars [c] @ quote_chars (d # ds))"

definition JSON_quote :: "js_string \<Rightarrow> js_string" where
  "JSON_quote s = [0x22] @ quote_chars s @ [0x22]"

fun comma_separated :: "js_string list \<Rightarrow> js_string" where
  "comma_separated [] = []"
| "comma_separated [x] = x"
| "comma_separated (x # y # ys) = x @ [0x2C] @ comma_separated (y # ys)"

definition JSON_stringify :: "js_string list \<Rightarrow> js_string" where
  "JSON_stringify xs = [0x5B] @ comma_separated (map JSON_quote xs) @ [0x5D]"

section \<open>The bridge state\<close>

text \<open>
  The result a tool call resolves with: \<open>{ content: [{ text, type }] }\<close>; the two
  properties of an item are \<open>content_text\<close> and \<open>content_type\<close>.
\<close>

record content_item =
  content_text :: js_string
  content_type :: js_string

type_synonym call_tool_result = "content_item list"

text \<open>
  The module's globals. \<open>electronProcess\<close> is \<open>null\<close> or the handle of a spawned
  process; a handle is the index of the process in \<open>spawned\<close>. \<open>pendingRequests\<close> is a
  JavaScript \<open>Map\<close>: keys are unique and iterate in insertion order, so it is an
  association list; the value of a key is the \<open>{resolve, reject}\<close> pair of one tool
  call's promise, named here by the number of that call. \<open>dialogTimeout\<close> and
  \<open>process_env\<close> are the constants the module reads: the value of
  \<open>parseInt(values.timeout, 10) || 60\<close> and the environment of the server.

  The remaining fields record what the module did to the outside world: the environment
  each process was spawned with, the handles \<open>kill()\<close> was called on, the handles whose
  \<open>close\<close> event has arrived, the \<open>resolve(...)\<close> calls made, and the errors thrown to
  callers. \<open>TypeError\<close> is the error of destructuring \<open>undefined\<close>, \<open>Error m\<close> an
  \<open>Error\<close> the handler creates with message \<open>m\<close>, and \<open>SpawnError m\<close> the error \<open>spawn\<close>
  threw, with its message \<open>m\<close>. A \<open>resolve\<close> call on a promise that was rejected before
  is recorded all the same; it changes nothing for the caller.
\<close>

datatype error =
  TypeError
| Error js_string
| SpawnError js_string

record bridge =
  dialogTimeout :: int
  process_env :: "js_string \<rightharpoonup> js_string"
  electronProcess :: "nat option"
  pendingRequests :: "(js_string \<times> nat) list"
  spawned :: "(js_string \<rightharpoonup> js_string) list"
  killed :: "nat list"
  closed :: "nat list"
  resolved :: "(nat \<times> call_tool_result) list"
  thrown :: "(nat \<times> error) list"

definition init :: "int \<Rightarrow> (js_string \<rightharpoonup> js_string) \<Rightarrow> bridge" where
  "init timeout penv =
     \<lparr>dialogTimeout = timeout, process_env = penv, electronProcess = None,
      pendingRequests = [], spawned = [], killed = [], closed = [], resolved = [],
      thrown = []\<rparr>"

section \<open>Starting the Electron process\<close>

text \<open>
  A field of the arguments object is absent (\<open>undefined\<close>), \<open>null\<close>, or a value of the type
  the input schema gives it. A property of \<open>env\<close> whose value is \<open>undefined\<close> is not passed
  to the child; \<open>null\<close> is passed as the text \<open>null\<close>.
\<close>

datatype 'a js_field = Undefined | Null | Value 'a

definition env_value :: "js_string js_field \<Rightarrow> js_string option" where
  "env_value v = (case v of Undefined \<Rightarrow> None | Null \<Rightarrow> Some (js ''null'') | Value s \<Rightarrow> Some s)"

text \<open>
  \<open>JSON.stringify(predefinedOptions)\<close>: \<open>undefined\<close> for \<open>undefined\<close>, the text \<open>null\<close> for
  \<open>null\<close>.
\<close>

definition stringify_options :: "js_string list js_field \<Rightarrow> js_string option" where
  "stringify_options v =
     (case v of
        Undefined \<Rightarrow> None
      | Null \<Rightarrow> Some (js ''null'')
      | Value xs \<Rightarrow> Some (JSON_stringify xs))"

text \<open>
  \<open>spawn\<close> is the runtime's. It either returns a handle or throws, and it throws at least
  when a string it is given as a value of \<open>env\<close> holds a null byte: of the values the module
  sets, only the project name and the message can (\<open>JSON.stringify\<close> escapes it, and the
  inherited environment has none). What else makes it throw (an environment too large, for
  one) is the runtime's answer \<open>refuses\<close>, given with each call together with the message of
  the error thrown.
\<close>

record spawn_reply =
  refuses :: bool
  error_message :: js_string

definition has_null_byte :: "js_string js_field \<Rightarrow> bool" where
  "has_null_byte v \<longleftrightarrow> (case v of Value s \<Rightarrow> 0 \<in> set s | _ \<Rightarrow> False)"

definition spawn_throws :: "spawn_reply \<Rightarrow> js_string js_field \<Rightarrow> js_string js_field \<Rightarrow> bool" where
  "spawn_throws reply projectName message \<longleftrightarrow>
     refuses reply \<or> has_null_byte projectName \<or> has_null_byte message"

text \<open>
  \<open>startElectronGUIWithData(projectName, message, predefinedOptions = [],
  timeoutOverride = null, textAreaHeight = null)\<close>. The tracked process is killed first.
  When \<open>spawn\<close> throws, the function ends there: \<open>electronProcess\<close> stays \<open>null\<close>, nothing
  is spawned, and the result carries the message of the error. Otherwise \<open>spawn\<close> returns
  a handle at once; a failure to start arrives later as the \<open>error\<close> event.
\<close>

definition dialog_env ::
  "(js_string \<rightharpoonup> js_string) \<Rightarrow> js_string option \<Rightarrow> js_string option \<Rightarrow>
   js_string option \<Rightarrow> int \<Rightarrow> js_string \<Rightarrow> (js_string \<rightharpoonup> js_string)" where
  "dialog_env penv projectName message predefinedOptions timeoutToUse textAreaHeightValue =
     penv(js ''DIALOG_PROJECT_NAME'' := projectName,
          js ''DIALOG_MESSAGE'' := message,
          js ''DIALOG_PREDEFINED_OPTIONS'' := predefinedOptions,
          js ''DIALOG_TIMEOUT'' \<mapsto> String_of timeoutToUse,
          js ''VSCODE_PID'' := None,
          js ''VSCODE_CWD'' := None,
          js ''CURSOR_PID'' := None,
          js ''CURSOR_CWD'' := None,
          js ''ELECTRON_RUN_AS_NODE'' := None,
          js ''ELECTRON_IS_DEV'' \<mapsto> js ''0'',
          js ''NODE_ENV'' \<mapsto> js ''production'',
          js ''DIALOG_TEXTAREA_HEIGHT'' \<mapsto> textAreaHeightValue)"

definition kill_existing :: "bridge \<Rightarrow> bridge" where
  "kill_existing st =
     (case electronProcess st of
        None \<Rightarrow> st
      | Some p \<Rightarrow> st\<lparr>killed := killed st @ [p], electronProcess := None\<rparr>)"

definition startElectronGUIWithData ::
  "bridge \<Rightarrow> spawn_reply \<Rightarrow> js_string js_field \<Rightarrow> js_string js_field \<Rightarrow>
   js_string list js_field \<Rightarrow> int option \<Rightarrow> int option \<Rightarrow> js_string option \<times> bridge" where
  "startElectronGUIWithData st0 reply projectName message predefinedOptions timeoutOverride
     textAreaHeight =
     (let st = kill_existing st0;
          opts = (case predefinedOptions of Undefined \<Rightarrow> Value [] | v \<Rightarrow> v);
          timeoutToUse = (case timeoutOverride of Some t \<Rightarrow> t | None \<Rightarrow> dialogTimeout st);
          textAreaHeightValue =
            (case textAreaHeight of Some h \<Rightarrow> String_of h | None \<Rightarrow> []);
          env = dialog_env (process_env st) (env_value projectName) (env_value message)
                  (stringify_options opts) timeoutToUse textAreaHeightValue
      in if spawn_throws reply projectName message then (Some (error_message reply), st)
         else (None, st\<lparr>electronProcess := Some (length (spawned st)),
                         spawned := spawned st @ [env]\<rparr>))"

section \<open>Resolving the pending request\<close>

definition timeout_result :: call_tool_result where
  "timeout_result =
     [\<lparr>content_text = js ''User did not reply: Timeout occurred. Retry calling the function.'',
       content_type = js ''text''\<rparr>]"

definition empty_result :: call_tool_result where
  "empty_result =
     [\<lparr>content_text = js ''User replied with empty input. Retry calling the function.'',
       content_type = js ''text''\<rparr>]"

definition replied_result :: "js_string \<Rightarrow> call_tool_result" where
  "replied_result userResponse =
     [\<lparr>content_text = js ''User replied: '' @ userResponse, content_type = js ''text''\<rparr>]"

definition resolve :: "nat \<Rightarrow> call_tool_result \<Rightarrow> bridge \<Rightarrow> bridge" where
  "resolve call r st = st\<lparr>resolved := resolved st @ [(call, r)]\<rparr>"

text \<open>
  \<open>handleUserResponse\<close>: the first key of the map, if there is one and it is truthy (a
  non-empty string), has its entry removed and its promise resolved.
\<close>

definition handleUserResponse :: "bridge \<Rightarrow> js_string \<Rightarrow> bridge" where
  "handleUserResponse st userResponse =
     (case pendingRequests st of
        [] \<Rightarrow> st
      | (requestId, call) # _ \<Rightarrow>
          if requestId = [] then st
          else
            let st' = st\<lparr>pendingRequests := AList.delete requestId (pendingRequests st)\<rparr>
            in if userResponse = js ''TIMEOUT'' then resolve call timeout_result st'
               else if userResponse = [] \<or> trim userResponse = [] then
                 resolve call empty_result st'
               else resolve call (replied_result userResponse) st')"

section \<open>The output stream of the process\<close>

definition process_line :: "bridge \<Rightarrow> js_string \<Rightarrow> bridge" where
  "process_line st line =
     (let trimmedLine = trim line
      in if trimmedLine = js ''DIALOG_CLOSED'' then st
         else if startsWith trimmedLine (js ''TEXT_FROM_RENDERER:'') then
           handleUserResponse st
             (trim (substring trimmedLine (length (js ''TEXT_FROM_RENDERER:''))))
         else if trimmedLine = js ''DIALOG_TIMEOUT'' then handleUserResponse st (js ''TIMEOUT'')
         else st)"

definition stdout_data :: "bridge \<Rightarrow> js_string \<Rightarrow> bridge" where
  "stdout_data st data = foldl process_line st (split_lines (trim data))"

section \<open>Tool calls\<close>

text \<open>
  \<open>showDialog\<close>: \<open>now\<close> is the value of \<open>Date.now()\<close> and \<open>call\<close> names the promise
  returned to the caller. The request is stored before the process is started; when
  \<open>spawn\<close> throws inside the executor the promise is rejected with that error, and the
  request stays in the map.
\<close>

definition showDialog ::
  "bridge \<Rightarrow> nat \<Rightarrow> nat \<Rightarrow> spawn_reply \<Rightarrow> js_string js_field \<Rightarrow> js_string js_field \<Rightarrow>
   js_string list js_field \<Rightarrow> js_string option \<times> bridge" where
  "showDialog st call now reply projectName message predefinedOptions =
     (let requestId = String_of (int now);
          opts = (case predefinedOptions of Undefined \<Rightarrow> Value [] | v \<Rightarrow> v)
      in startElectronGUIWithData
           (st\<lparr>pendingRequests := AList.update requestId call (pendingRequests st)\<rparr>)
           reply projectName message opts None None)"

record tool_arguments =
  projectName :: "js_string js_field"
  message :: "js_string js_field"
  summary :: "js_string js_field"
  predefinedOptions :: "js_string list js_field"

record call_tool_request =
  name :: js_string
  arguments :: "tool_arguments option"

text \<open>
  The request handler: the error thrown to the caller, if any, and the state it leaves.
  Destructuring an absent \<open>arguments\<close> throws a \<open>TypeError\<close> before anything is done. For
  \<open>ask_user\<close> a rejection of \<open>showDialog\<close> is caught and thrown again as
  \<open>Error("Failed to show dialog: " + message)\<close>; for \<open>request_user_confirmation\<close> the
  promise returned is rejected with the error \<open>spawn\<close> threw. Without an error the caller
  waits for its promise.
\<close>

definition call_tool ::
  "bridge \<Rightarrow> nat \<Rightarrow> nat \<Rightarrow> spawn_reply \<Rightarrow> call_tool_request \<Rightarrow> error option \<times> bridge" where
  "call_tool st call now reply request =
     (if name request = js ''ask_user'' then
        (case arguments request of
           None \<Rightarrow> (Some TypeError, st)
         | Some args \<Rightarrow>
             (case showDialog st call now reply (projectName args) (message args)
                     (predefinedOptions args) of
                (Some m, st') \<Rightarrow> (Some (Error (js ''Failed to show dialog: '' @ m)), st')
              | (None, st') \<Rightarrow> (None, st')))
      else if name request = js ''request_user_confirmation'' then
        (case arguments request of
           None \<Rightarrow> (Some TypeError, st)
         | Some args \<Rightarrow>
             let requestId = String_of (int now)
             in (case startElectronGUIWithData
                        (st\<lparr>pendingRequests :=
                              AList.update requestId call (pendingRequests st)\<rparr>)
                        reply (projectName args) (summary args) (Value []) (Some 0) (Some 300) of
                   (Some m, st') \<Rightarrow> (Some (SpawnError m), st')
                 | (None, st') \<Rightarrow> (None, st')))
      else (Some (Error (js ''Unknown tool: '' @ name request)), st))"

section \<open>Events\<close>

text \<open>
  What the event loop delivers to the module: a tool call (with the caller's promise,
  the clock and the runtime's answer to \<open>spawn\<close>), a chunk of data on the standard output or standard error of a process
  (\<open>data.toString()\<close>), and the \<open>close\<close> and \<open>error\<close> events of a process. The listeners
  of a process stay attached after \<open>kill()\<close>; none of them looks at which process it
  belongs to. The standard error and the \<open>error\<close> event are only logged. The handlers of
  \<open>SIGINT\<close> and \<open>SIGTERM\<close> kill the tracked process and end the program: nothing
  happens after them, so they are not events here.
\<close>

datatype event =
  ToolCall nat nat spawn_reply call_tool_request
| StdoutData nat js_string
| StderrData nat js_string
| Close nat
| ProcessError nat

fun step :: "bridge \<Rightarrow> event \<Rightarrow> bridge" where
  "step st (ToolCall call now reply request) =
     (case call_tool st call now reply request of
        (Some e, st') \<Rightarrow> st'\<lparr>thrown := thrown st' @ [(call, e)]\<rparr>
      | (None, st') \<Rightarrow> st')"
| "step st (StdoutData p d) = stdout_data st d"
| "step st (StderrData p d) = st"
| "step st (Close p) = st\<lparr>electronProcess := None, closed := closed st @ [p]\<rparr>"
| "step st (ProcessError p) = st"

definition run :: "bridge \<Rightarrow> event list \<Rightarrow> bridge" where
  "run st evs = foldl step st evs"

text \<open>
  An event of a process can only come from a process that was spawned and has not closed.
\<close>

fun possible :: "bridge \<Rightarrow> event \<Rightarrow> bool" where
  "possible st (ToolCall call now reply request) = True"
| "possible st (StdoutData p d) = (p < length (spawned st) \<and> p \<notin> set (closed st))"
| "possible st (StderrData p d) = (p < length (spawned st) \<and> p \<notin> set (closed st))"
| "possible st (Close p) = (p < length (spawned st) \<and> p \<notin> set (closed st))"
| "possible st (ProcessError p) = (p < length (spawned st) \<and> p \<notin> set (closed st))"

fun possible_run :: "bridge \<Rightarrow> event list \<Rightarrow> bool" where
  "possible_run st [] = True"
| "possible_run st (ev # evs) = (possible st ev \<and> possible_run (step st ev) evs)"

section \<open>Calls of a client and the state invariant\<close>

text \<open>
  The two requests a client sends, with the arguments it chose to give, and the answer of a
  runtime that lets \<open>spawn\<close> go ahead.
\<close>

definition ask_user_call ::
  "js_string js_field \<Rightarrow> js_string js_field \<Rightarrow> js_string list js_field \<Rightarrow>
   call_tool_request" where
  "ask_user_call p m os =
     \<lparr>name = js ''ask_user'',
      arguments =
        Some \<lparr>projectName = p, message = m, summary = Undefined, predefinedOptions = os\<rparr>\<rparr>"

definition confirmation_call ::
  "js_string js_field \<Rightarrow> js_string js_field \<Rightarrow> call_tool_request" where
  "confirmation_call p s =
     \<lparr>name = js ''request_user_confirmation'',
      arguments =
        Some \<lparr>projectName = p, message = Undefined, summary = s,
              predefinedOptions = Undefined\<rparr>\<rparr>"

definition spawns :: spawn_reply where
  "spawns = \<lparr>refuses = False, error_message = []\<rparr>"

text \<open>
  What holds of the globals in every state: the keys of the map are distinct and non-empty;
  the tracked handle, when there is one, is the process spawned last and was not killed;
  and only spawned processes were killed.
\<close>

definition tracked_handle_ok :: "bridge \<Rightarrow> bool" where
  "tracked_handle_ok st \<longleftrightarrow>
     (case electronProcess st of
        None \<Rightarrow> True
      | Some p \<Rightarrow> Suc p = length (spawned st) \<and> p \<notin> set (killed st))"

definition bridge_inv :: "bridge \<Rightarrow> bool" where
  "bridge_inv st \<longleftrightarrow>
     distinct (map fst (pendingRequests st)) \<and>
     [] \<notin> set (map fst (pendingRequests st)) \<and>
     tracked_handle_ok st \<and>
     (\<forall>p\<in>set (killed st). p < length (spawned st))"

text \<open>
  What holds as long as events only come from processes that can send them: only spawned
  processes have closed, and the tracked handle has not closed.
\<close>

definition handle_open :: "bridge \<Rightarrow> bool" where
  "handle_open st \<longleftrightarrow>
     (\<forall>p\<in>set (closed st). p < length (spawned st)) \<and>
     (case electronProcess st of None \<Rightarrow> True | Some p \<Rightarrow> p \<notin> set (closed st))"

text \<open>
  The calls of a run, and what holds of them when no two calls share a promise: a call is
  pending at most once, was resolved at most once, and is never both.
\<close>

fun call_ids :: "event list \<Rightarrow> nat list" where
  "call_ids [] = []"
| "call_ids (ToolCall c now reply request # evs) = c # call_ids evs"
| "call_ids (ev # evs) = call_ids evs"

definition calls_ok :: "bridge \<Rightarrow> nat set \<Rightarrow> bool" where
  "calls_ok st S \<longleftrightarrow>
     distinct (map snd (pendingRequests st)) \<and>
     distinct (map fst (resolved st)) \<and>
     set (map snd (pendingRequests st)) \<inter> set (map fst (resolved st)) = {} \<and>
     set (map snd (pendingRequests st)) \<union> set (map fst (resolved st)) \<subseteq> S"

text \<open>A state used as an example: one \<open>ask_user\<close> call pending.\<close>

abbreviation one_pending :: bridge where
  "one_pending \<equiv>
     run (init 60 Map.empty)
       [ToolCall 7 1000 spawns
          (ask_user_call (Value (js ''proj'')) (Value (js ''Anything?'')) Undefined)]"

section \<open>String literals\<close>

lemma of_char_word_inj: "(of_char c :: 16 word) = of_char d \<longleftrightarrow> c = d"
proof
  assume e: "(of_char c :: 16 word) = of_char d"
  have u: "unat (of_char x :: 16 word) = of_char x" for x
  proof -
    have "(of_char x :: nat) mod 2 ^ 16 = of_char x"
      by (intro mod_less order_less_trans [OF nat_of_char_less_256]) simp
    moreover have "(of_char x :: 16 word) = of_nat (of_char x)" by (simp add: of_nat_of_char)
    ultimately show ?thesis by (simp add: unat_of_nat del: of_nat_of_char)
  qed
  from e have "unat (of_char c :: 16 word) = unat (of_char d :: 16 word)" by simp
  then have "(of_char c :: nat) = of_char d" by (simp only: u)
  then show "c = d" by simp
qed simp

lemma js_eq_iff: "js a = js b \<longleftrightarrow> a = b"
  unfolding js_def
  by (rule inj_map_eq_map) (simp add: inj_on_def of_char_word_inj)

lemma marker_length: "length (js ''TEXT_FROM_RENDERER:'') = 19"
  by (simp add: js_def)

lemma marker_ends:
  "js ''TEXT_FROM_RENDERER:'' \<noteq> []"
  "\<not> is_white_space (hd (js ''TEXT_FROM_RENDERER:''))"
  "\<not> is_white_space (last (js ''TEXT_FROM_RENDERER:''))"
  by (simp_all add: js_def is_white_space_def)

lemma marker_distinct:
  "js ''TEXT_FROM_RENDERER:'' \<noteq> js ''DIALOG_CLOSED''"
  "js ''TEXT_FROM_RENDERER:'' \<noteq> js ''DIALOG_TIMEOUT''"
  "js ''DIALOG_CLOSED'' \<noteq> js ''DIALOG_TIMEOUT''"
  "js ''DIALOG_TIMEOUT'' \<noteq> js ''DIALOG_CLOSED''"
  "\<not> startsWith (js ''DIALOG_CLOSED'') (js ''TEXT_FROM_RENDERER:'')"
  "\<not> startsWith (js ''DIALOG_TIMEOUT'') (js ''TEXT_FROM_RENDERER:'')"
  "js ''TIMEOUT'' \<noteq> []"
  "[] \<noteq> js ''TIMEOUT''"
  by (simp_all add: js_def startsWith_def)

lemma marker_no_line_feed: "0x0A \<notin> set (js ''TEXT_FROM_RENDERER:'')"
  by (simp add: js_def)

lemma tool_names_distinct:
  "js ''request_user_confirmation'' \<noteq> js ''ask_user''"
  "js ''ask_user'' \<noteq> js ''request_user_confirmation''"
  by (simp_all add: js_eq_iff)

lemma result_distinct:
  "timeout_result \<noteq> empty_result"
  "timeout_result \<noteq> replied_result r"
  "empty_result \<noteq> replied_result r"
  by (simp_all add: timeout_result_def empty_result_def replied_result_def js_def)

lemma String_of_values:
  "String_of 0 = js ''0''"
  "String_of 300 = js ''300''"
  "String_of 60 = js ''60''"
  by (simp_all add: String_of_def digits.simps digit_def js_def)

lemma JSON_stringify_Nil: "JSON_stringify [] = js ''[]''"
  by (simp add: JSON_stringify_def js_def)

lemma digits_not_Nil: "digits n \<noteq> []"
  by (subst digits.simps) simp

lemma String_of_not_Nil: "String_of i \<noteq> []"
  by (simp add: String_of_def digits_not_Nil)

section \<open>Trimming\<close>

lemma dropWhile_all_Nil: "\<forall>x\<in>set (dropWhile P xs). P x \<Longrightarrow> dropWhile P xs = []"
  by (metis hd_dropWhile hd_in_set)

lemma trim_eq_Nil_iff: "trim s = [] \<longleftrightarrow> (\<forall>c\<in>set s. is_white_space c)"
proof
  assume "trim s = []"
  then have "dropWhile is_white_space (rev (dropWhile is_white_space s)) = []"
    by (simp add: trim_def)
  then have "\<forall>x\<in>set (dropWhile is_white_space s). is_white_space x"
    by simp
  then have "dropWhile is_white_space s = []"
    by (rule dropWhile_all_Nil)
  then show "\<forall>c\<in>set s. is_white_space c"
    by simp
next
  assume "\<forall>c\<in>set s. is_white_space c"
  then have "dropWhile is_white_space s = []"
    by simp
  then show "trim s = []"
    by (simp only: trim_def rev.simps dropWhile.simps)
qed

lemma trim_Nil: "trim [] = []"
  by (simp add: trim_def)

lemma rtrim_keep: "xs \<noteq> [] \<Longrightarrow> \<not> P (last xs) \<Longrightarrow> rev (dropWhile P (rev xs)) = xs"
  by (cases xs rule: rev_cases) auto

lemma rtrim_append_ws:
  "\<forall>c\<in>set w. P c \<Longrightarrow> dropWhile P (rev w @ ys) = dropWhile P ys"
  by (rule dropWhile_append2) simp

lemma trim_append_ws:
  assumes "p \<noteq> []" "\<not> is_white_space (hd p)" "\<not> is_white_space (last p)"
    and "\<forall>c\<in>set w. is_white_space c"
  shows "trim (p @ w) = p"
proof -
  have "dropWhile is_white_space (p @ w) = p @ w"
    using assms(1,2) by (cases p) auto
  then show ?thesis
    using assms by (simp add: trim_def rtrim_append_ws rtrim_keep)
qed

lemma trim_idem: "trim (trim s) = trim s"
proof (cases "trim s = []")
  case True
  then show ?thesis by (simp add: trim_Nil)
next
  case False
  let ?d = "dropWhile is_white_space s"
  let ?r = "dropWhile is_white_space (rev ?d)"
  from False have r: "?r \<noteq> []" by (simp add: trim_def)
  have d: "?d \<noteq> []"
  proof
    assume "?d = []"
    then have "?r = []" by (simp only: rev.simps dropWhile.simps)
    with r show False by simp
  qed
  have hd_r: "\<not> is_white_space (hd ?r)" using r by (rule hd_dropWhile)
  have hd_d: "\<not> is_white_space (hd ?d)" using d by (rule hd_dropWhile)
  have "last (trim s) = hd ?r" using r by (simp add: trim_def last_rev)
  moreover have "hd (trim s) = hd ?d"
  proof -
    obtain ys where ys: "rev ?d = ys @ ?r" 
      by (metis takeWhile_dropWhile_id)
    then have e: "?d = rev ?r @ rev ys" by (metis rev_append rev_rev_ident)
    have "rev ?r \<noteq> []" using r rev_is_Nil_conv by blast
    then have "hd (rev ?r @ rev ys) = hd (rev ?r)" by (rule hd_append2)
    with e show ?thesis unfolding trim_def by metis
  qed
  ultimately have "\<not> is_white_space (hd (trim s))" "\<not> is_white_space (last (trim s))"
    using hd_r hd_d by simp_all
  with False show ?thesis
    using trim_append_ws [of "trim s" "[]"] by simp
qed

lemma rtrim_not_all_ws:
  assumes "x \<in> set s" and "\<not> P x"
  shows "rev (dropWhile P (rev (a @ s))) = a @ rev (dropWhile P (rev s))"
proof -
  have "x \<in> set (rev s)" using assms(1) by simp
  then have "dropWhile P (rev s @ rev a) = dropWhile P (rev s) @ rev a"
    using assms(2) by (rule dropWhile_append1)
  then show ?thesis by simp
qed

lemma rtrim_idem:
  "rev (dropWhile P (rev (rev (dropWhile P (rev s))))) = rev (dropWhile P (rev s))"
  by simp

lemma ltrim_rtrim_commute:
  "dropWhile P (rev (dropWhile P (rev s))) = rev (dropWhile P (rev (dropWhile P s)))"
proof (cases "dropWhile P s = []")
  case True
  then have "\<forall>x\<in>set (rev s). P x" by simp
  then have a: "dropWhile P (rev s) = []" by simp
  show ?thesis by (simp only: a True rev.simps dropWhile.simps)
next
  case False
  let ?a = "takeWhile P s"
  let ?b = "dropWhile P s"
  from False have x: "hd ?b \<in> set ?b" "\<not> P (hd ?b)"
    by (rule hd_in_set, rule hd_dropWhile)
  have 1: "rev (dropWhile P (rev (?a @ ?b))) = ?a @ rev (dropWhile P (rev ?b))"
    by (rule rtrim_not_all_ws [of "hd ?b" ?b P ?a, OF x(1) x(2)])
  have 2: "dropWhile P (?a @ rev (dropWhile P (rev ?b))) = dropWhile P (rev (dropWhile P (rev ?b)))"
    by (rule dropWhile_append2) (rule set_takeWhileD [THEN conjunct2])
  obtain h t where b: "?b = h # t" using False by (cases ?b) auto
  have h: "\<not> P h" using x(2) b by simp
  have "rev (dropWhile P (rev (h # t))) = h # rev (dropWhile P (rev t))"
    using rtrim_not_all_ws [of h "[h]" P "[]"] h
    by (cases "dropWhile P (rev t) = []") (simp_all add: dropWhile_append)
  then have 3: "dropWhile P (rev (dropWhile P (rev ?b))) = rev (dropWhile P (rev ?b))"
    using h by (simp only: b dropWhile.simps if_False)
  have "dropWhile P (rev (dropWhile P (rev s))) = dropWhile P (rev (dropWhile P (rev (?a @ ?b))))"
    by (simp only: takeWhile_dropWhile_id)
  also have "\<dots> = dropWhile P (?a @ rev (dropWhile P (rev ?b)))"
    by (simp only: 1)
  also have "\<dots> = rev (dropWhile P (rev ?b))"
    by (simp only: 2 3)
  finally show ?thesis .
qed

lemma trim_rtrim: "trim (rev (dropWhile is_white_space (rev s))) = trim s"
  by (simp only: trim_def ltrim_rtrim_commute [of is_white_space s] rtrim_idem)

lemma trim_marker_payload:
  assumes "trim s \<noteq> []"
  shows "trim (js ''TEXT_FROM_RENDERER:'' @ s) =
           js ''TEXT_FROM_RENDERER:'' @ rev (dropWhile is_white_space (rev s))"
proof -
  from assms obtain x where x: "x \<in> set s" "\<not> is_white_space x"
    using trim_eq_Nil_iff [of s] by blast
  have d: "dropWhile is_white_space (js ''TEXT_FROM_RENDERER:'' @ s) = js ''TEXT_FROM_RENDERER:'' @ s"
    using marker_ends(1,2) by (cases "js ''TEXT_FROM_RENDERER:''") auto
  have r: "rev (dropWhile is_white_space (rev (js ''TEXT_FROM_RENDERER:'' @ s))) =
             js ''TEXT_FROM_RENDERER:'' @ rev (dropWhile is_white_space (rev s))"
    by (rule rtrim_not_all_ws [of x s is_white_space "js ''TEXT_FROM_RENDERER:''", OF x(1) x(2)])
  show ?thesis
    by (simp only: trim_def d r)
qed

lemma trim_append_all_ws: "\<forall>c\<in>set w. is_white_space c \<Longrightarrow> trim (y @ w) = trim y"
proof (cases "\<forall>c\<in>set y. is_white_space c")
  case True
  assume "\<forall>c\<in>set w. is_white_space c"
  with True have "trim (y @ w) = []" "trim y = []"
    by (simp_all only: trim_eq_Nil_iff) auto
  then show ?thesis by simp
next
  case False
  assume w: "\<forall>c\<in>set w. is_white_space c"
  from False obtain x where x: "x \<in> set y" "\<not> is_white_space x" by blast
  then have "dropWhile is_white_space (y @ w) = dropWhile is_white_space y @ w"
    by (rule dropWhile_append1)
  moreover have "dropWhile is_white_space (rev w @ z) = dropWhile is_white_space z" for z
    using w by (intro dropWhile_append2) simp
  ultimately show ?thesis by (simp add: trim_def)
qed

lemma trim_all_ws_append: "\<forall>c\<in>set w. is_white_space c \<Longrightarrow> trim (w @ y) = trim y"
proof -
  assume "\<forall>c\<in>set w. is_white_space c"
  then have "dropWhile is_white_space (w @ y) = dropWhile is_white_space y"
    by (intro dropWhile_append2) simp
  then show ?thesis by (simp only: trim_def)
qed

lemma trim_decompose:
  "d = takeWhile is_white_space d @ trim d @
         rev (takeWhile is_white_space (rev (dropWhile is_white_space d)))"
proof -
  let ?m = "dropWhile is_white_space d"
  have "rev ?m = takeWhile is_white_space (rev ?m) @ dropWhile is_white_space (rev ?m)"
    by simp
  then have "rev (rev ?m) =
      rev (takeWhile is_white_space (rev ?m) @ dropWhile is_white_space (rev ?m))"
    by (rule arg_cong)
  then have m: "trim d @ rev (takeWhile is_white_space (rev ?m)) = ?m"
    by (simp only: rev_rev_ident rev_append trim_def)
  have "takeWhile is_white_space d @ ?m = d" by simp
  then show ?thesis by (simp only: m)
qed

lemma set_rtrim_subset: "set (rev (dropWhile P (rev s))) \<subseteq> set s"
  using set_dropWhileD [of _ P "rev s"] by auto

section \<open>Lines of the output stream\<close>

lemma startsWith_append: "startsWith (p @ s) p"
  by (simp add: startsWith_def)

lemma startsWith_marker_not_closed:
  "startsWith s (js ''TEXT_FROM_RENDERER:'') \<Longrightarrow> s \<noteq> js ''DIALOG_CLOSED''"
  using marker_distinct(5) by auto

lemma resolve_fields:
  "electronProcess (resolve c r st) = electronProcess st"
  "pendingRequests (resolve c r st) = pendingRequests st"
  "spawned (resolve c r st) = spawned st"
  "killed (resolve c r st) = killed st"
  "closed (resolve c r st) = closed st"
  "thrown (resolve c r st) = thrown st"
  "resolved (resolve c r st) = resolved st @ [(c, r)]"
  by (simp_all add: resolve_def)

lemma handleUserResponse_none:
  "pendingRequests st = [] \<Longrightarrow> handleUserResponse st r = st"
  by (simp add: handleUserResponse_def)

lemma handleUserResponse_first:
  assumes "pendingRequests st = (rid, c) # rest" and "rid \<noteq> []"
  shows "handleUserResponse st r =
           resolve c
             (if r = js ''TIMEOUT'' then timeout_result
              else if trim r = [] then empty_result
              else replied_result r)
             (st\<lparr>pendingRequests := AList.delete rid (pendingRequests st)\<rparr>)"
  using assms by (auto simp add: handleUserResponse_def Let_def trim_Nil)

lemma handleUserResponse_cases:
  "handleUserResponse st r = st \<or>
   (\<exists>rid c rest res. pendingRequests st = (rid, c) # rest \<and>
      handleUserResponse st r =
        resolve c res (st\<lparr>pendingRequests := AList.delete rid (pendingRequests st)\<rparr>))"
proof (cases "pendingRequests st")
  case Nil
  then show ?thesis by (simp add: handleUserResponse_none)
next
  case (Cons a rest)
  obtain rid c where a: "a = (rid, c)" by (cases a)
  show ?thesis
  proof (cases "rid = []")
    case True
    with Cons a show ?thesis by (simp add: handleUserResponse_def)
  next
    case False
    with Cons a handleUserResponse_first [of st rid c rest r] show ?thesis by blast
  qed
qed

lemma handleUserResponse_frame:
  "electronProcess (handleUserResponse st r) = electronProcess st"
  "spawned (handleUserResponse st r) = spawned st"
  "killed (handleUserResponse st r) = killed st"
  "closed (handleUserResponse st r) = closed st"
  "thrown (handleUserResponse st r) = thrown st"
  using handleUserResponse_cases [of st r] by (auto simp add: resolve_fields)

lemma process_line_closed:
  "trim l = js ''DIALOG_CLOSED'' \<Longrightarrow> process_line st l = st"
  by (simp add: process_line_def)

lemma process_line_timeout:
  "trim l = js ''DIALOG_TIMEOUT'' \<Longrightarrow> process_line st l = handleUserResponse st (js ''TIMEOUT'')"
  by (simp add: process_line_def Let_def marker_distinct)

lemma process_line_text:
  "trim l = js ''TEXT_FROM_RENDERER:'' @ s \<Longrightarrow> process_line st l = handleUserResponse st (trim s)"
  using startsWith_marker_not_closed [of "js ''TEXT_FROM_RENDERER:'' @ s"]
  by (simp add: process_line_def Let_def startsWith_append substring_def marker_length)

lemma process_line_noise:
  "\<not> startsWith (trim l) (js ''TEXT_FROM_RENDERER:'') \<Longrightarrow> trim l \<noteq> js ''DIALOG_TIMEOUT'' \<Longrightarrow>
   process_line st l = st"
  by (simp add: process_line_def Let_def)

lemma process_line_none:
  "pendingRequests st = [] \<Longrightarrow> process_line st l = st"
  by (simp add: process_line_def Let_def handleUserResponse_none)

lemma process_line_trim: "process_line st (trim l) = process_line st l"
  by (simp add: process_line_def trim_idem)

lemma process_line_blank: "trim l = [] \<Longrightarrow> process_line st l = st"
  by (rule process_line_noise) (simp_all add: startsWith_def marker_length js_def)

lemma process_line_frame:
  "electronProcess (process_line st l) = electronProcess st"
  "spawned (process_line st l) = spawned st"
  "killed (process_line st l) = killed st"
  "closed (process_line st l) = closed st"
  "thrown (process_line st l) = thrown st"
  by (simp_all add: process_line_def Let_def handleUserResponse_frame)

lemma foldl_process_line_none:
  "pendingRequests st = [] \<Longrightarrow> foldl process_line st ls = st"
  by (induction ls) (simp_all add: process_line_none)

lemma foldl_process_line_noise:
  "\<forall>l\<in>set ls. \<not> startsWith (trim l) (js ''TEXT_FROM_RENDERER:'') \<and> trim l \<noteq> js ''DIALOG_TIMEOUT'' \<Longrightarrow>
   foldl process_line st ls = st"
  by (induction ls) (simp_all add: process_line_noise)

lemma foldl_process_line_trimmed:
  "foldl process_line st ls = foldl process_line st (filter (\<lambda>l. l \<noteq> []) (map trim ls))"
proof (induction ls arbitrary: st)
  case Nil
  show ?case by simp
next
  case (Cons l ls)
  show ?case
  proof (cases "trim l = []")
    case True
    then show ?thesis using Cons [of st] by (simp add: process_line_blank)
  next
    case False
    then show ?thesis using Cons [of "process_line st l"] by (simp add: process_line_trim)
  qed
qed

lemma reply_line_is_replied:
  assumes "trim payload \<noteq> []" and "trim payload \<noteq> js ''TIMEOUT''"
    and "pendingRequests st = (rid, c) # rest" and "rid \<noteq> []"
  shows "process_line st (js ''TEXT_FROM_RENDERER:'' @ payload) =
           resolve c (replied_result (trim payload))
             (st\<lparr>pendingRequests := AList.delete rid (pendingRequests st)\<rparr>)"
proof -
  have "process_line st (js ''TEXT_FROM_RENDERER:'' @ payload) =
          handleUserResponse st (trim (rev (dropWhile is_white_space (rev payload))))"
    using trim_marker_payload [OF assms(1)] by (rule process_line_text)
  then have "process_line st (js ''TEXT_FROM_RENDERER:'' @ payload) =
          handleUserResponse st (trim payload)"
    by (simp only: trim_rtrim)
  then show ?thesis
    using assms by (simp add: handleUserResponse_first [OF assms(3,4)] trim_idem)
qed

section \<open>The lines of a chunk\<close>

lemma split_lines_not_Nil: "split_lines s \<noteq> []"
  by (induction s) (auto split: list.splits)

lemma split_lines_Cons:
  "c \<noteq> 0x0A \<Longrightarrow> split_lines (c # s) = (c # hd (split_lines s)) # tl (split_lines s)"
  using split_lines_not_Nil [of s] by (cases "split_lines s") simp_all

lemma split_lines_append:
  "split_lines (x @ y) =
     butlast (split_lines x) @ (last (split_lines x) @ hd (split_lines y)) # tl (split_lines y)"
proof (induction x)
  case Nil
  show ?case using split_lines_not_Nil [of y] by simp
next
  case (Cons c x)
  show ?case
  proof (cases "c = 0x0A")
    case True
    then show ?thesis using Cons split_lines_not_Nil [of x] by simp
  next
    case False
    have n: "split_lines x \<noteq> []" by (rule split_lines_not_Nil)
    have cx: "split_lines (c # x) = (c # hd (split_lines x)) # tl (split_lines x)"
      using False by (rule split_lines_Cons)
    have cxy: "split_lines (c # (x @ y)) =
                 (c # hd (split_lines (x @ y))) # tl (split_lines (x @ y))"
      using False by (rule split_lines_Cons)
    show ?thesis
    proof (cases "tl (split_lines x) = []")
      case True
      with n obtain l where e: "split_lines x = [l]"
        by (cases "split_lines x") auto
      have "split_lines (x @ y) = (l @ hd (split_lines y)) # tl (split_lines y)"
        using Cons by (simp add: e)
      then have "split_lines (c # (x @ y)) = (c # l @ hd (split_lines y)) # tl (split_lines y)"
        by (simp only: cxy list.sel)
      moreover have "split_lines (c # x) = [c # l]"
        by (simp only: cx e list.sel)
      ultimately show ?thesis by simp
    next
      case t: False
      from n obtain l ls where e: "split_lines x = l # ls" by (cases "split_lines x") auto
      with t have ls: "ls \<noteq> []" by simp
      have "split_lines (x @ y) =
              l # butlast ls @ (last ls @ hd (split_lines y)) # tl (split_lines y)"
        using Cons ls by (simp add: e)
      then have "split_lines (c # (x @ y)) =
              (c # l) # butlast ls @ (last ls @ hd (split_lines y)) # tl (split_lines y)"
        by (simp only: cxy list.sel)
      moreover have "split_lines (c # x) = (c # l) # ls"
        by (simp only: cx e list.sel)
      ultimately show ?thesis using ls by simp
    qed
  qed
qed

lemma split_lines_all_ws:
  "\<forall>c\<in>set w. P c \<Longrightarrow> \<forall>l\<in>set (split_lines w). \<forall>c\<in>set l. P c"
proof (induction w)
  case Nil
  then show ?case by simp
next
  case (Cons a w)
  then have ih: "\<forall>l\<in>set (split_lines w). \<forall>c\<in>set l. P c" by simp
  show ?case
  proof (cases "a = 0x0A")
    case True
    with ih show ?thesis by simp
  next
    case False
    obtain l ls where e: "split_lines w = l # ls"
      using split_lines_not_Nil [of w] by (cases "split_lines w") auto
    with ih Cons.prems False show ?thesis by simp
  qed
qed

lemma split_lines_one: "0x0A \<notin> set s \<Longrightarrow> split_lines s = [s]"
  by (induction s) auto

lemma blank_lines_filtered:
  "\<forall>l\<in>set ls. \<forall>c\<in>set l. is_white_space c \<Longrightarrow> filter (\<lambda>l. l \<noteq> []) (map trim ls) = []"
  by (induction ls) (simp_all add: trim_eq_Nil_iff)

lemma lines_after_white_space:
  assumes "\<forall>c\<in>set a. is_white_space c"
  shows "filter (\<lambda>l. l \<noteq> []) (map trim (split_lines (a @ x))) =
         filter (\<lambda>l. l \<noteq> []) (map trim (split_lines x))"
proof -
  have all: "\<forall>l\<in>set (split_lines a). \<forall>c\<in>set l. is_white_space c"
    using assms by (rule split_lines_all_ws)
  have na: "split_lines a \<noteq> []" and nx: "split_lines x \<noteq> []"
    by (rule split_lines_not_Nil)+
  have "\<forall>l\<in>set (butlast (split_lines a)). \<forall>c\<in>set l. is_white_space c"
    using all by (meson in_set_butlastD)
  then have 1: "filter (\<lambda>l. l \<noteq> []) (map trim (butlast (split_lines a))) = []"
    by (rule blank_lines_filtered)
  have "\<forall>c\<in>set (last (split_lines a)). is_white_space c"
    using all na by (meson last_in_set)
  then have 2: "trim (last (split_lines a) @ hd (split_lines x)) = trim (hd (split_lines x))"
    by (rule trim_all_ws_append)
  have "map trim (split_lines x) = trim (hd (split_lines x)) # map trim (tl (split_lines x))"
    using nx by (cases "split_lines x") simp_all
  then show ?thesis
    by (simp add: split_lines_append [of a x] 1 2)
qed

lemma lines_before_white_space:
  assumes "\<forall>c\<in>set b. is_white_space c"
  shows "filter (\<lambda>l. l \<noteq> []) (map trim (split_lines (x @ b))) =
         filter (\<lambda>l. l \<noteq> []) (map trim (split_lines x))"
proof -
  have all: "\<forall>l\<in>set (split_lines b). \<forall>c\<in>set l. is_white_space c"
    using assms by (rule split_lines_all_ws)
  have nb: "split_lines b \<noteq> []" and nx: "split_lines x \<noteq> []"
    by (rule split_lines_not_Nil)+
  have "\<forall>l\<in>set (tl (split_lines b)). \<forall>c\<in>set l. is_white_space c"
    using all nb by (meson list.set_sel(2))
  then have 1: "filter (\<lambda>l. l \<noteq> []) (map trim (tl (split_lines b))) = []"
    by (rule blank_lines_filtered)
  have "\<forall>c\<in>set (hd (split_lines b)). is_white_space c"
    using all nb by (meson hd_in_set)
  then have 2: "trim (last (split_lines x) @ hd (split_lines b)) = trim (last (split_lines x))"
    by (rule trim_append_all_ws)
  have "map trim (butlast (split_lines x) @ [last (split_lines x)]) =
          map trim (butlast (split_lines x)) @ [trim (last (split_lines x))]"
    by simp
  then have "map trim (split_lines x) =
          map trim (butlast (split_lines x)) @ [trim (last (split_lines x))]"
    by (simp only: append_butlast_last_id [OF nx])
  then show ?thesis
    by (simp add: split_lines_append [of x b] 1 2)
qed

lemma stdout_data_lines: "stdout_data st d = foldl process_line st (split_lines d)"
proof -
  let ?a = "takeWhile is_white_space d"
  let ?b = "rev (takeWhile is_white_space (rev (dropWhile is_white_space d)))"
  have a: "\<forall>c\<in>set ?a. is_white_space c"
    by (auto dest: set_takeWhileD)
  have b: "\<forall>c\<in>set ?b. is_white_space c"
    by (auto dest: set_takeWhileD)
  have "filter (\<lambda>l. l \<noteq> []) (map trim (split_lines (?a @ trim d @ ?b))) =
        filter (\<lambda>l. l \<noteq> []) (map trim (split_lines (trim d @ ?b)))"
    using a by (rule lines_after_white_space)
  also have "\<dots> = filter (\<lambda>l. l \<noteq> []) (map trim (split_lines (trim d)))"
    using b by (rule lines_before_white_space)
  finally have f: "filter (\<lambda>l. l \<noteq> []) (map trim (split_lines (?a @ trim d @ ?b))) =
        filter (\<lambda>l. l \<noteq> []) (map trim (split_lines (trim d)))" .
  have "split_lines (?a @ trim d @ ?b) = split_lines d"
    by (rule arg_cong [OF trim_decompose [symmetric]])
  with f have "filter (\<lambda>l. l \<noteq> []) (map trim (split_lines d)) =
        filter (\<lambda>l. l \<noteq> []) (map trim (split_lines (trim d)))"
    by (simp only:)
  then show ?thesis
    using foldl_process_line_trimmed [of st "split_lines d"]
      foldl_process_line_trimmed [of st "split_lines (trim d)"]
    by (simp add: stdout_data_def)
qed

lemma run_stdout_chunks:
  "run st (map (StdoutData p) chunks) =
     foldl process_line st (concat (map split_lines chunks))"
proof -
  have "foldl step st (map (StdoutData p) chunks) =
          foldl process_line st (concat (map split_lines chunks))"
    by (induction chunks arbitrary: st) (simp_all add: stdout_data_lines)
  then show ?thesis by (simp only: run_def)
qed

lemma stdout_data_frame:
  "electronProcess (stdout_data st d) = electronProcess st"
  "spawned (stdout_data st d) = spawned st"
  "killed (stdout_data st d) = killed st"
  "closed (stdout_data st d) = closed st"
  "thrown (stdout_data st d) = thrown st"
proof -
  have "electronProcess (foldl process_line st ls) = electronProcess st \<and>
        spawned (foldl process_line st ls) = spawned st \<and>
        killed (foldl process_line st ls) = killed st \<and>
        closed (foldl process_line st ls) = closed st \<and>
        thrown (foldl process_line st ls) = thrown st" for ls
    by (induction ls arbitrary: st) (simp_all add: process_line_frame)
  then show
    "electronProcess (stdout_data st d) = electronProcess st"
    "spawned (stdout_data st d) = spawned st"
    "killed (stdout_data st d) = killed st"
    "closed (stdout_data st d) = closed st"
    "thrown (stdout_data st d) = thrown st"
    by (simp_all add: stdout_data_def)
qed

lemma stdout_data_timeout_chunk:
  "stdout_data st (js ''DIALOG_TIMEOUT'') = handleUserResponse st (js ''TIMEOUT'')"
  by (simp add: stdout_data_def trim_def js_def is_white_space_def process_line_def
      startsWith_def Let_def)

lemma stdout_data_closed_chunk:
  "trim d = js ''DIALOG_CLOSED'' \<Longrightarrow> stdout_data st d = st"
  by (simp add: stdout_data_def)
    (simp add: trim_def js_def is_white_space_def process_line_def)

lemma stdout_data_none:
  "pendingRequests st = [] \<Longrightarrow> stdout_data st d = st"
  by (simp add: stdout_data_def foldl_process_line_none)

lemma stdout_data_reply_chunk:
  assumes "0x0A \<notin> set payload" and "trim payload \<noteq> []"
  shows "stdout_data st (js ''TEXT_FROM_RENDERER:'' @ payload) =
           handleUserResponse st (trim payload)"
proof -
  let ?y = "rev (dropWhile is_white_space (rev payload))"
  have y: "trim ?y = trim payload" by (rule trim_rtrim)
  have "0x0A \<notin> set ?y"
    using assms(1) set_rtrim_subset [of is_white_space payload] by blast
  then have "0x0A \<notin> set (js ''TEXT_FROM_RENDERER:'' @ ?y)"
    using marker_no_line_feed by simp
  then have l: "split_lines (js ''TEXT_FROM_RENDERER:'' @ ?y) = [js ''TEXT_FROM_RENDERER:'' @ ?y]"
    by (rule split_lines_one)
  have t: "trim (js ''TEXT_FROM_RENDERER:'' @ payload) = js ''TEXT_FROM_RENDERER:'' @ ?y"
    using assms(2) by (rule trim_marker_payload)
  have "trim (js ''TEXT_FROM_RENDERER:'' @ ?y) =
          js ''TEXT_FROM_RENDERER:'' @ rev (dropWhile is_white_space (rev ?y))"
    using assms(2) by (intro trim_marker_payload) (simp only: y not_False_eq_True)
  then have "process_line st (js ''TEXT_FROM_RENDERER:'' @ ?y) =
          handleUserResponse st (trim (rev (dropWhile is_white_space (rev ?y))))"
    by (rule process_line_text)
  then have "process_line st (js ''TEXT_FROM_RENDERER:'' @ ?y) =
          handleUserResponse st (trim payload)"
    by (simp only: trim_rtrim)
  then show ?thesis
    by (simp only: stdout_data_def t l foldl.simps)
qed

section \<open>Starting a process\<close>

lemma kill_existing_fields:
  "dialogTimeout (kill_existing st) = dialogTimeout st"
  "process_env (kill_existing st) = process_env st"
  "electronProcess (kill_existing st) = None"
  "pendingRequests (kill_existing st) = pendingRequests st"
  "spawned (kill_existing st) = spawned st"
  "killed (kill_existing st) =
     killed st @ (case electronProcess st of None \<Rightarrow> [] | Some p \<Rightarrow> [p])"
  "closed (kill_existing st) = closed st"
  "resolved (kill_existing st) = resolved st"
  "thrown (kill_existing st) = thrown st"
  by (simp_all add: kill_existing_def split: option.splits)

lemma startElectronGUIWithData_fields:
  "dialogTimeout (snd (startElectronGUIWithData st reply p m os t h)) = dialogTimeout st"
  "process_env (snd (startElectronGUIWithData st reply p m os t h)) = process_env st"
  "pendingRequests (snd (startElectronGUIWithData st reply p m os t h)) = pendingRequests st"
  "killed (snd (startElectronGUIWithData st reply p m os t h)) =
     killed st @ (case electronProcess st of None \<Rightarrow> [] | Some q \<Rightarrow> [q])"
  "closed (snd (startElectronGUIWithData st reply p m os t h)) = closed st"
  "resolved (snd (startElectronGUIWithData st reply p m os t h)) = resolved st"
  "thrown (snd (startElectronGUIWithData st reply p m os t h)) = thrown st"
  by (simp_all add: startElectronGUIWithData_def Let_def kill_existing_fields)

lemma startElectronGUIWithData_result:
  "fst (startElectronGUIWithData st reply p m os t h) =
     (if spawn_throws reply p m then Some (error_message reply) else None)"
  by (simp add: startElectronGUIWithData_def Let_def)

lemma startElectronGUIWithData_handle:
  "electronProcess (snd (startElectronGUIWithData st reply p m os t h)) =
     (if spawn_throws reply p m then None else Some (length (spawned st)))"
  by (simp add: startElectronGUIWithData_def Let_def kill_existing_fields)

lemma startElectronGUIWithData_spawned:
  "spawned (snd (startElectronGUIWithData st reply p m os t h)) =
     (if spawn_throws reply p m then spawned st
      else spawned st @
        [dialog_env (process_env st) (env_value p) (env_value m)
           (stringify_options (case os of Undefined \<Rightarrow> Value [] | v \<Rightarrow> v))
           (case t of Some t' \<Rightarrow> t' | None \<Rightarrow> dialogTimeout st)
           (case h of Some h' \<Rightarrow> String_of h' | None \<Rightarrow> [])])"
  by (simp add: startElectronGUIWithData_def Let_def kill_existing_fields
      split: option.splits js_field.splits)

lemma dialog_env_values:
  "dialog_env penv p m os t h (js ''DIALOG_PROJECT_NAME'') = p"
  "dialog_env penv p m os t h (js ''DIALOG_MESSAGE'') = m"
  "dialog_env penv p m os t h (js ''DIALOG_PREDEFINED_OPTIONS'') = os"
  "dialog_env penv p m os t h (js ''DIALOG_TIMEOUT'') = Some (String_of t)"
  "dialog_env penv p m os t h (js ''DIALOG_TEXTAREA_HEIGHT'') = Some h"
  unfolding dialog_env_def fun_upd_def
  by (simp_all add: js_eq_iff)

lemma call_tool_ask_user:
  assumes "name req = js ''ask_user''" and "arguments req = Some a"
  shows "fst (call_tool st c now reply req) =
           (if spawn_throws reply (projectName a) (message a)
            then Some (Error (js ''Failed to show dialog: '' @ error_message reply)) else None)"
    and "snd (call_tool st c now reply req) =
           snd (startElectronGUIWithData
                  (st\<lparr>pendingRequests :=
                        AList.update (String_of (int now)) c (pendingRequests st)\<rparr>)
                  reply (projectName a) (message a)
                  (case predefinedOptions a of Undefined \<Rightarrow> Value [] | v \<Rightarrow> v) None None)"
proof -
  let ?r = "startElectronGUIWithData
              (st\<lparr>pendingRequests :=
                    AList.update (String_of (int now)) c (pendingRequests st)\<rparr>)
              reply (projectName a) (message a)
              (case predefinedOptions a of Undefined \<Rightarrow> Value [] | v \<Rightarrow> v) None None"
  obtain e s where r: "?r = (e, s)" by (cases ?r)
  have e: "e = (if spawn_throws reply (projectName a) (message a)
                then Some (error_message reply) else None)"
    using startElectronGUIWithData_result [of _ reply "projectName a" "message a" _ None None] r
    by (metis fst_conv)
  have c: "call_tool st c now reply req =
             (case e of Some m \<Rightarrow> (Some (Error (js ''Failed to show dialog: '' @ m)), s)
              | None \<Rightarrow> (None, s))"
    using assms r by (simp add: call_tool_def showDialog_def Let_def)
  show "fst (call_tool st c now reply req) =
           (if spawn_throws reply (projectName a) (message a)
            then Some (Error (js ''Failed to show dialog: '' @ error_message reply)) else None)"
    by (simp add: c e)
  show "snd (call_tool st c now reply req) = snd ?r"
    by (simp add: c r split: option.splits)
qed

lemma call_tool_confirmation:
  assumes "name req = js ''request_user_confirmation''" and "arguments req = Some a"
  shows "fst (call_tool st c now reply req) =
           (if spawn_throws reply (projectName a) (summary a)
            then Some (SpawnError (error_message reply)) else None)"
    and "snd (call_tool st c now reply req) =
           snd (startElectronGUIWithData
                  (st\<lparr>pendingRequests :=
                        AList.update (String_of (int now)) c (pendingRequests st)\<rparr>)
                  reply (projectName a) (summary a) (Value []) (Some 0) (Some 300))"
proof -
  let ?r = "startElectronGUIWithData
              (st\<lparr>pendingRequests :=
                    AList.update (String_of (int now)) c (pendingRequests st)\<rparr>)
              reply (projectName a) (summary a) (Value []) (Some 0) (Some 300)"
  obtain e s where r: "?r = (e, s)" by (cases ?r)
  have e: "e = (if spawn_throws reply (projectName a) (summary a)
                then Some (error_message reply) else None)"
    using startElectronGUIWithData_result
      [of _ reply "projectName a" "summary a" "Value []" "Some 0" "Some 300"] r
    by (metis fst_conv)
  have c: "call_tool st c now reply req =
             (case e of Some m \<Rightarrow> (Some (SpawnError m), s) | None \<Rightarrow> (None, s))"
    using assms r by (simp add: call_tool_def Let_def tool_names_distinct)
  show "fst (call_tool st c now reply req) =
           (if spawn_throws reply (projectName a) (summary a)
            then Some (SpawnError (error_message reply)) else None)"
    by (simp add: c e)
  show "snd (call_tool st c now reply req) = snd ?r"
    by (simp add: c r split: option.splits)
qed

lemma call_tool_no_arguments:
  "name req = js ''ask_user'' \<or> name req = js ''request_user_confirmation'' \<Longrightarrow>
   arguments req = None \<Longrightarrow> call_tool st c now reply req = (Some TypeError, st)"
  by (auto simp add: call_tool_def)

lemma call_tool_unknown:
  "name req \<noteq> js ''ask_user'' \<Longrightarrow> name req \<noteq> js ''request_user_confirmation'' \<Longrightarrow>
   call_tool st c now reply req = (Some (Error (js ''Unknown tool: '' @ name req)), st)"
  by (simp add: call_tool_def)

lemma call_tool_cases:
  "snd (call_tool st c now reply req) = st \<or>
   (\<exists>p m os t h.
      snd (call_tool st c now reply req) =
        snd (startElectronGUIWithData
               (st\<lparr>pendingRequests :=
                     AList.update (String_of (int now)) c (pendingRequests st)\<rparr>)
               reply p m os t h))"
proof (cases "name req = js ''ask_user'' \<or> name req = js ''request_user_confirmation''")
  case False
  then show ?thesis by (simp add: call_tool_unknown)
next
  case True
  show ?thesis
  proof (cases "arguments req")
    case None
    with True show ?thesis by (simp add: call_tool_no_arguments)
  next
    case (Some a)
    from True show ?thesis
    proof
      assume "name req = js ''ask_user''"
      from call_tool_ask_user(2) [OF this Some] show ?thesis by blast
    next
      assume "name req = js ''request_user_confirmation''"
      from call_tool_confirmation(2) [OF this Some] show ?thesis by blast
    qed
  qed
qed

section \<open>The invariant is kept by every event\<close>

lemma tracked_handle_ok_cong:
  "electronProcess a = electronProcess b \<Longrightarrow> spawned a = spawned b \<Longrightarrow> killed a = killed b \<Longrightarrow>
   tracked_handle_ok a = tracked_handle_ok b"
  by (simp add: tracked_handle_ok_def split: option.splits)

lemma delete_keys_subset: "set (map fst (AList.delete k al)) \<subseteq> set (map fst al)"
  by (induction al) auto

lemma bridge_inv_delete:
  assumes "bridge_inv st"
  shows "bridge_inv (resolve c res (st\<lparr>pendingRequests := AList.delete rid (pendingRequests st)\<rparr>))"
proof -
  let ?st' = "resolve c res (st\<lparr>pendingRequests := AList.delete rid (pendingRequests st)\<rparr>)"
  have p: "pendingRequests ?st' = AList.delete rid (pendingRequests st)"
    by (simp add: resolve_fields)
  have 1: "distinct (map fst (pendingRequests ?st'))"
    using assms unfolding p bridge_inv_def by (simp add: AList.distinct_delete)
  have 2: "[] \<notin> set (map fst (pendingRequests ?st'))"
    using assms delete_keys_subset [of rid "pendingRequests st"]
    unfolding p bridge_inv_def by blast
  have "tracked_handle_ok ?st' = tracked_handle_ok st"
    by (rule tracked_handle_ok_cong) (simp_all add: resolve_fields)
  then have 3: "tracked_handle_ok ?st'"
    using assms by (simp add: bridge_inv_def)
  have 4: "\<forall>q\<in>set (killed ?st'). q < length (spawned ?st')"
    using assms by (simp add: resolve_fields bridge_inv_def)
  from 1 2 3 4 show ?thesis
    unfolding bridge_inv_def by blast
qed

lemma bridge_inv_handleUserResponse:
  assumes "bridge_inv st"
  shows "bridge_inv (handleUserResponse st r)"
proof -
  from handleUserResponse_cases [of st r] show ?thesis
  proof
    assume "handleUserResponse st r = st"
    with assms show ?thesis by simp
  next
    assume "\<exists>rid c rest res. pendingRequests st = (rid, c) # rest \<and>
      handleUserResponse st r =
        resolve c res (st\<lparr>pendingRequests := AList.delete rid (pendingRequests st)\<rparr>)"
    then obtain rid c res where
      "handleUserResponse st r =
         resolve c res (st\<lparr>pendingRequests := AList.delete rid (pendingRequests st)\<rparr>)"
      by blast
    with assms show ?thesis by (simp only: bridge_inv_delete)
  qed
qed

lemma bridge_inv_process_line:
  "bridge_inv st \<Longrightarrow> bridge_inv (process_line st l)"
  by (simp add: process_line_def Let_def bridge_inv_handleUserResponse)

lemma bridge_inv_stdout_data:
  "bridge_inv st \<Longrightarrow> bridge_inv (stdout_data st d)"
proof -
  have "bridge_inv st \<Longrightarrow> bridge_inv (foldl process_line st ls)" for ls
    by (induction ls arbitrary: st) (simp_all add: bridge_inv_process_line)
  then show "bridge_inv st \<Longrightarrow> bridge_inv (stdout_data st d)"
    by (simp add: stdout_data_def)
qed

lemma bridge_inv_start:
  assumes "bridge_inv st"
  shows "bridge_inv
           (snd (startElectronGUIWithData
              (st\<lparr>pendingRequests := AList.update (String_of i) c (pendingRequests st)\<rparr>)
              reply p m os t h))"
proof -
  let ?st = "st\<lparr>pendingRequests := AList.update (String_of i) c (pendingRequests st)\<rparr>"
  let ?st' = "snd (startElectronGUIWithData ?st reply p m os t h)"
  have 1: "distinct (map fst (pendingRequests ?st'))"
    using assms by (simp add: startElectronGUIWithData_fields bridge_inv_def AList.distinct_update)
  have "set (map fst (AList.update (String_of i) c (pendingRequests st))) =
          {String_of i} \<union> set (map fst (pendingRequests st))"
    using AList.dom_update [of "String_of i" c "pendingRequests st"] by simp
  then have 2: "[] \<notin> set (map fst (pendingRequests ?st'))"
    using assms String_of_not_Nil [of i]
    unfolding bridge_inv_def by (auto simp add: startElectronGUIWithData_fields)
  have k: "\<forall>q\<in>set (killed ?st'). q < length (spawned st)"
    using assms
    by (auto simp add: startElectronGUIWithData_fields bridge_inv_def tracked_handle_ok_def
        split: option.splits)
  then have 3: "tracked_handle_ok ?st'"
    by (auto simp add: tracked_handle_ok_def startElectronGUIWithData_handle
        startElectronGUIWithData_spawned)
  have 4: "\<forall>q\<in>set (killed ?st'). q < length (spawned ?st')"
    using k by (auto simp add: startElectronGUIWithData_spawned)
  from 1 2 3 4 show ?thesis
    unfolding bridge_inv_def by blast
qed

lemma bridge_inv_call_tool:
  assumes "bridge_inv st"
  shows "bridge_inv (snd (call_tool st c now reply req))"
  using call_tool_cases [of st c now reply req] assms bridge_inv_start [OF assms]
  by (elim disjE exE) simp_all

lemma bridge_inv_thrown:
  "bridge_inv st \<Longrightarrow> bridge_inv (st\<lparr>thrown := x\<rparr>)"
  using tracked_handle_ok_cong [of "st\<lparr>thrown := x\<rparr>" st]
  by (simp add: bridge_inv_def)

lemma bridge_inv_close:
  "bridge_inv st \<Longrightarrow> bridge_inv (st\<lparr>electronProcess := None, closed := x\<rparr>)"
  by (simp add: bridge_inv_def tracked_handle_ok_def)

lemma bridge_inv_step:
  "bridge_inv st \<Longrightarrow> bridge_inv (step st ev)"
proof (cases ev)
  case (ToolCall c now reply req)
  assume "bridge_inv st"
  then have "bridge_inv (snd (call_tool st c now reply req))"
    by (rule bridge_inv_call_tool)
  then show ?thesis
    using ToolCall
    by (cases "call_tool st c now reply req")
      (auto simp add: bridge_inv_thrown split: option.splits)
qed (simp_all add: bridge_inv_stdout_data bridge_inv_close)

lemma bridge_inv_init: "bridge_inv (init t penv)"
  by (simp add: bridge_inv_def tracked_handle_ok_def init_def)

lemma bridge_inv_foldl:
  "bridge_inv st \<Longrightarrow> bridge_inv (foldl step st evs)"
  by (induction evs arbitrary: st) (simp_all add: bridge_inv_step)

lemma run_init_inv: "bridge_inv (run (init t penv) evs)"
  unfolding run_def by (rule bridge_inv_foldl) (rule bridge_inv_init)

lemma handle_open_start:
  assumes "handle_open st"
  shows "handle_open (snd (startElectronGUIWithData (st\<lparr>pendingRequests := q\<rparr>) reply p m os t h))"
  using assms
  by (auto simp add: handle_open_def startElectronGUIWithData_fields
      startElectronGUIWithData_handle startElectronGUIWithData_spawned split: option.splits)

lemma handle_open_thrown: "handle_open (st\<lparr>thrown := x\<rparr>) = handle_open st"
  by (simp add: handle_open_def split: option.splits)

lemma handle_open_step:
  assumes "handle_open st" and "possible st ev"
  shows "handle_open (step st ev)"
proof (cases ev)
  case (ToolCall c now reply req)
  have "handle_open (snd (call_tool st c now reply req))"
    using call_tool_cases [of st c now reply req] assms(1) handle_open_start [OF assms(1)]
    by (elim disjE exE) simp_all
  then show ?thesis
    using ToolCall
    by (cases "call_tool st c now reply req")
      (auto simp add: handle_open_thrown split: option.splits)
next
  case (StdoutData p d)
  with assms show ?thesis
    by (simp add: handle_open_def stdout_data_frame split: option.splits)
next
  case (StderrData p d)
  with assms show ?thesis by simp
next
  case (Close p)
  with assms show ?thesis by (auto simp add: handle_open_def split: option.splits)
next
  case (ProcessError p)
  with assms show ?thesis by simp
qed

lemma handle_open_run:
  "handle_open st \<Longrightarrow> possible_run st evs \<Longrightarrow> handle_open (foldl step st evs)"
  by (induction evs arbitrary: st) (simp_all add: handle_open_step)

lemma handle_open_init: "handle_open (init t penv)"
  by (simp add: handle_open_def init_def)

section \<open>No call is resolved twice\<close>

lemma delete_values_subset: "set (map snd (AList.delete k al)) \<subseteq> set (map snd al)"
  by (induction al) auto

lemma distinct_delete_values:
  "distinct (map snd al) \<Longrightarrow> distinct (map snd (AList.delete k al))"
  by (simp add: AList.delete_eq distinct_map_filter)

lemma update_values_subset:
  "set (map snd (AList.update k v al)) \<subseteq> insert v (set (map snd al))"
  by (induction al) auto

lemma distinct_update_values:
  "distinct (map snd al) \<Longrightarrow> v \<notin> set (map snd al) \<Longrightarrow>
   distinct (map snd (AList.update k v al))"
proof (induction al)
  case Nil
  show ?case by simp
next
  case (Cons q al)
  from Cons.prems have d: "distinct (map snd al)" "snd q \<notin> set (map snd al)"
    and v: "v \<notin> set (map snd al)" "v \<noteq> snd q"
    by auto
  show ?case
  proof (cases "fst q = k")
    case True
    with d v show ?thesis by simp
  next
    case False
    have "set (map snd (AList.update k v al)) \<subseteq> insert v (set (map snd al))"
      by (rule update_values_subset)
    with d(2) v(2) have "snd q \<notin> set (map snd (AList.update k v al))" by blast
    with False Cons.IH [OF d(1) v(1)] show ?thesis by simp
  qed
qed

lemma calls_ok_resolve:
  assumes "calls_ok st S" and "pendingRequests st = (rid, c) # rest"
  shows "calls_ok (resolve c res (st\<lparr>pendingRequests := AList.delete rid (pendingRequests st)\<rparr>)) S"
proof -
  let ?st' = "resolve c res (st\<lparr>pendingRequests := AList.delete rid (pendingRequests st)\<rparr>)"
  have p: "pendingRequests ?st' = AList.delete rid rest"
    using assms(2) by (simp add: resolve_fields)
  have r: "resolved ?st' = resolved st @ [(c, res)]"
    by (simp add: resolve_fields)
  have d: "distinct (map snd rest)" "c \<notin> set (map snd rest)"
    and dr: "distinct (map fst (resolved st))" "c \<notin> set (map fst (resolved st))"
    and i: "set (map snd rest) \<inter> set (map fst (resolved st)) = {}"
    and s: "set (map snd rest) \<subseteq> S" "c \<in> S" "set (map fst (resolved st)) \<subseteq> S"
    using assms by (auto simp add: calls_ok_def)
  have sub: "set (map snd (AList.delete rid rest)) \<subseteq> set (map snd rest)"
    by (rule delete_values_subset)
  have 1: "distinct (map snd (pendingRequests ?st'))"
    unfolding p using d(1) by (rule distinct_delete_values)
  have 2: "distinct (map fst (resolved ?st'))"
    unfolding r using dr by simp
  have 3: "set (map snd (pendingRequests ?st')) \<inter> set (map fst (resolved ?st')) = {}"
    unfolding p r using sub d(2) i by auto
  have 4: "set (map snd (pendingRequests ?st')) \<union> set (map fst (resolved ?st')) \<subseteq> S"
    unfolding p r using sub s by auto
  from 1 2 3 4 show ?thesis unfolding calls_ok_def by blast
qed

lemma calls_ok_handleUserResponse:
  assumes "calls_ok st S"
  shows "calls_ok (handleUserResponse st r) S"
proof -
  from handleUserResponse_cases [of st r] show ?thesis
  proof
    assume "handleUserResponse st r = st"
    with assms show ?thesis by simp
  next
    assume "\<exists>rid c rest res. pendingRequests st = (rid, c) # rest \<and>
      handleUserResponse st r =
        resolve c res (st\<lparr>pendingRequests := AList.delete rid (pendingRequests st)\<rparr>)"
    then obtain rid c rest res where
      "pendingRequests st = (rid, c) # rest"
      "handleUserResponse st r =
         resolve c res (st\<lparr>pendingRequests := AList.delete rid (pendingRequests st)\<rparr>)"
      by blast
    with calls_ok_resolve [OF assms, of rid c rest res] show ?thesis by simp
  qed
qed

lemma calls_ok_process_line: "calls_ok st S \<Longrightarrow> calls_ok (process_line st l) S"
  by (simp add: process_line_def Let_def calls_ok_handleUserResponse)

lemma calls_ok_stdout_data: "calls_ok st S \<Longrightarrow> calls_ok (stdout_data st d) S"
proof -
  have "calls_ok st S \<Longrightarrow> calls_ok (foldl process_line st ls) S" for ls
    by (induction ls arbitrary: st) (simp_all add: calls_ok_process_line)
  then show "calls_ok st S \<Longrightarrow> calls_ok (stdout_data st d) S"
    by (simp add: stdout_data_def)
qed

lemma calls_ok_weaken: "calls_ok st S \<Longrightarrow> S \<subseteq> T \<Longrightarrow> calls_ok st T"
  by (auto simp add: calls_ok_def)

lemma calls_ok_cong:
  "pendingRequests a = pendingRequests b \<Longrightarrow> resolved a = resolved b \<Longrightarrow>
   calls_ok a S = calls_ok b S"
  by (simp add: calls_ok_def)

lemma calls_ok_start:
  assumes "calls_ok st S" and "c \<notin> S"
  shows "calls_ok
           (snd (startElectronGUIWithData
              (st\<lparr>pendingRequests := AList.update k c (pendingRequests st)\<rparr>) reply p m os t h))
           (insert c S)"
proof -
  let ?st' = "snd (startElectronGUIWithData
              (st\<lparr>pendingRequests := AList.update k c (pendingRequests st)\<rparr>) reply p m os t h)"
  have p: "pendingRequests ?st' = AList.update k c (pendingRequests st)"
    and r: "resolved ?st' = resolved st"
    by (simp_all add: startElectronGUIWithData_fields)
  have c: "c \<notin> set (map snd (pendingRequests st))" "c \<notin> set (map fst (resolved st))"
    using assms unfolding calls_ok_def by blast+
  have i: "set (map snd (pendingRequests st)) \<inter> set (map fst (resolved st)) = {}"
    and s1: "set (map snd (pendingRequests st)) \<subseteq> S"
    and s2: "set (map fst (resolved st)) \<subseteq> S"
    using assms(1) unfolding calls_ok_def by blast+
  have sub: "set (map snd (AList.update k c (pendingRequests st))) \<subseteq>
               insert c (set (map snd (pendingRequests st)))"
    by (rule update_values_subset)
  have 1: "distinct (map snd (pendingRequests ?st'))"
    unfolding p using assms(1) c(1) by (intro distinct_update_values) (simp_all add: calls_ok_def)
  have 2: "distinct (map fst (resolved ?st'))"
    unfolding r using assms(1) by (simp add: calls_ok_def)
  have 3: "set (map snd (pendingRequests ?st')) \<inter> set (map fst (resolved ?st')) = {}"
    unfolding p r using sub c(2) i by blast
  have 4: "set (map snd (pendingRequests ?st')) \<union> set (map fst (resolved ?st')) \<subseteq> insert c S"
    unfolding p r using sub s1 s2 by blast
  from 1 2 3 4 show ?thesis unfolding calls_ok_def by blast
qed

lemma calls_ok_call_tool:
  assumes "calls_ok st S" and "c \<notin> S"
  shows "calls_ok (snd (call_tool st c now reply req)) (insert c S)"
proof -
  have "calls_ok st (insert c S)"
    using assms(1) by (rule calls_ok_weaken) blast
  then show ?thesis
    using call_tool_cases [of st c now reply req] calls_ok_start [OF assms]
    by (elim disjE exE) simp_all
qed

lemma calls_ok_step:
  assumes "calls_ok st S" and "set (call_ids [ev]) \<inter> S = {}"
  shows "calls_ok (step st ev) (S \<union> set (call_ids [ev]))"
proof (cases ev)
  case (ToolCall c now reply req)
  with assms(2) have c: "c \<notin> S" by simp
  have a: "calls_ok (snd (call_tool st c now reply req)) (insert c S)"
    using assms(1) c by (rule calls_ok_call_tool)
  have "calls_ok (snd (call_tool st c now reply req)\<lparr>thrown := x\<rparr>) (insert c S)" for x
    using a calls_ok_cong [of "snd (call_tool st c now reply req)\<lparr>thrown := x\<rparr>"
        "snd (call_tool st c now reply req)" "insert c S"]
    by simp
  with a ToolCall show ?thesis
    by (cases "call_tool st c now reply req") (auto split: option.splits)
next
  case (StdoutData p d)
  with assms(1) show ?thesis by (simp add: calls_ok_stdout_data)
next
  case (StderrData p d)
  with assms(1) show ?thesis by simp
next
  case (Close p)
  have "calls_ok (st\<lparr>electronProcess := None, closed := closed st @ [p]\<rparr>) S = calls_ok st S"
    by (rule calls_ok_cong) simp_all
  with assms(1) Close show ?thesis by simp
next
  case (ProcessError p)
  with assms(1) show ?thesis by simp
qed

lemma call_ids_Cons: "call_ids (ev # evs) = call_ids [ev] @ call_ids evs"
  by (cases ev) simp_all

lemma calls_ok_foldl:
  "calls_ok st S \<Longrightarrow> distinct (call_ids evs) \<Longrightarrow> set (call_ids evs) \<inter> S = {} \<Longrightarrow>
   calls_ok (foldl step st evs) (S \<union> set (call_ids evs))"
proof (induction evs arbitrary: st S)
  case Nil
  then show ?case by simp
next
  case (Cons ev evs)
  have e: "call_ids (ev # evs) = call_ids [ev] @ call_ids evs"
    by (rule call_ids_Cons)
  from Cons.prems(3) have 1: "set (call_ids [ev]) \<inter> S = {}"
    unfolding e by auto
  have a: "calls_ok (step st ev) (S \<union> set (call_ids [ev]))"
    using Cons.prems(1) 1 by (rule calls_ok_step)
  have b: "distinct (call_ids evs)"
    using Cons.prems(2) unfolding e by simp
  have c: "set (call_ids evs) \<inter> (S \<union> set (call_ids [ev])) = {}"
    using Cons.prems(2,3) unfolding e by auto
  from Cons.IH [OF a b c] show ?case
    unfolding e by (simp add: Un_assoc)
qed

lemma no_call_resolved_twice:
  assumes "distinct (call_ids evs)"
  shows "distinct (map fst (resolved (run (init t penv) evs)))"
proof -
  have "calls_ok (init t penv) {}"
    by (simp add: calls_ok_def init_def)
  from calls_ok_foldl [OF this assms] show ?thesis
    by (simp add: calls_ok_def run_def)
qed

section \<open>Evaluating concrete runs\<close>

lemmas run_defs =
  run_def init_def ask_user_call_def confirmation_call_def spawns_def call_tool_def
  showDialog_def startElectronGUIWithData_def spawn_throws_def has_null_byte_def
  kill_existing_def String_of_def digits.simps digit_def js_def
  stdout_data_def trim_def is_white_space_def process_line_def startsWith_def substring_def
  handleUserResponse_def resolve_def Let_def

lemma one_pending_fields:
  "pendingRequests one_pending = [(js ''1000'', 7)]"
  "electronProcess one_pending = Some 0"
  "length (spawned one_pending) = 1"
  "killed one_pending = []"
  "resolved one_pending = []"
  "thrown one_pending = []"
  by (simp_all add: run_defs)

text \<open>
  The listener splits each chunk on its own. A line that reaches it cut in two by a chunk
  boundary is seen as two lines, neither of them a marker: here \<open>DIALOG_TIMEOUT\<close> is
  lost and the request stays pending. The statements about lines below are about lines
  as the listener sees them, whole within a chunk.
\<close>

lemma line_cut_by_chunk_boundary_is_lost:
  "resolved (run one_pending
     [StdoutData 0 (js ''DIALOG_TIME''), StdoutData 0 (js ''OUT'' @ [0x0A])]) = [] \<and>
   pendingRequests (run one_pending
     [StdoutData 0 (js ''DIALOG_TIME''), StdoutData 0 (js ''OUT'' @ [0x0A])]) =
     [(js ''1000'', 7)]"
  by (simp add: run_defs)

text \<open>
  The id of a request is the clock value. A second call at the same clock value takes the
  entry of the first in the map, whose promise is then never resolved.
\<close>

lemma same_clock_value_overwrites_request:
  "pendingRequests (run one_pending
     [ToolCall 8 1000 spawns (ask_user_call (Value (js ''proj'')) (Value (js ''Pick one'')) Undefined)]) =
     [(js ''1000'', 8)] \<and>
   resolved (run one_pending
     [ToolCall 8 1000 spawns (ask_user_call (Value (js ''proj'')) (Value (js ''Pick one'')) Undefined),
      StdoutData 1 (js ''TEXT_FROM_RENDERER:a''),
      StdoutData 1 (js ''TEXT_FROM_RENDERER:b'')]) = [(8, replied_result (js ''a''))]"
  by (simp add: run_defs replied_result_def)

text \<open>
  A field that is \<open>null\<close> is not replaced by a default: the project name and the options
  reach the environment as the text \<open>null\<close>. An absent field leaves the project name
  unset and gives the options \<open>[]\<close>.
\<close>

lemma null_fields_are_passed_as_text:
  "last (spawned (run (init 60 Map.empty)
     [ToolCall 7 1000 spawns (ask_user_call Null (Value (js ''Anything?'')) Null)]))
     (js ''DIALOG_PROJECT_NAME'') = Some (js ''null'') \<and>
   last (spawned (run (init 60 Map.empty)
     [ToolCall 7 1000 spawns (ask_user_call Null (Value (js ''Anything?'')) Null)]))
     (js ''DIALOG_PREDEFINED_OPTIONS'') = Some (js ''null'') \<and>
   last (spawned (run (init 60 Map.empty)
     [ToolCall 7 1000 spawns (ask_user_call Undefined (Value (js ''Anything?'')) Undefined)]))
     (js ''DIALOG_PROJECT_NAME'') = None \<and>
   last (spawned (run (init 60 Map.empty)
     [ToolCall 7 1000 spawns (ask_user_call Undefined (Value (js ''Anything?'')) Undefined)]))
     (js ''DIALOG_PREDEFINED_OPTIONS'') = Some (js ''[]'')"
proof -
  have null: "spawned (run (init 60 Map.empty)
       [ToolCall 7 1000 spawns (ask_user_call Null (Value (js ''Anything?'')) Null)]) =
     [dialog_env Map.empty (Some (js ''null'')) (Some (js ''Anything?'')) (Some (js ''null'')) 60 []]"
    by (simp add: run_defs env_value_def stringify_options_def)
  have absent: "spawned (run (init 60 Map.empty)
       [ToolCall 7 1000 spawns (ask_user_call Undefined (Value (js ''Anything?'')) Undefined)]) =
     [dialog_env Map.empty None (Some (js ''Anything?'')) (Some (js ''[]'')) 60 []]"
    by (simp add: run_defs env_value_def stringify_options_def JSON_stringify_def)
  show ?thesis
    unfolding null absent by (simp add: dialog_env_values)
qed

text \<open>
  A null byte in the message makes \<open>spawn\<close> throw. The request was stored before, so it
  stays pending although its caller was given the error; no process is spawned, and a
  process tracked before was killed.
\<close>

lemma null_byte_in_message_spawns_nothing:
  "pendingRequests (run (init 60 Map.empty)
     [ToolCall 7 1000 \<lparr>refuses = False, error_message = js ''null bytes''\<rparr>
        (ask_user_call (Value (js ''proj'')) (Value (js ''a'' @ [0] @ js ''b'')) Undefined)]) =
     [(js ''1000'', 7)] \<and>
   spawned (run (init 60 Map.empty)
     [ToolCall 7 1000 \<lparr>refuses = False, error_message = js ''null bytes''\<rparr>
        (ask_user_call (Value (js ''proj'')) (Value (js ''a'' @ [0] @ js ''b'')) Undefined)]) = [] \<and>
   thrown (run (init 60 Map.empty)
     [ToolCall 7 1000 \<lparr>refuses = False, error_message = js ''null bytes''\<rparr>
        (ask_user_call (Value (js ''proj'')) (Value (js ''a'' @ [0] @ js ''b'')) Undefined)]) =
     [(7, Error (js ''Failed to show dialog: null bytes''))] \<and>
   killed (run one_pending
     [ToolCall 8 1001 \<lparr>refuses = False, error_message = js ''null bytes''\<rparr>
        (ask_user_call (Value (js ''proj'')) (Value (js ''a'' @ [0] @ js ''b'')) Undefined)]) = [0] \<and>
   electronProcess (run one_pending
     [ToolCall 8 1001 \<lparr>refuses = False, error_message = js ''null bytes''\<rparr>
        (ask_user_call (Value (js ''proj'')) (Value (js ''a'' @ [0] @ js ''b'')) Undefined)]) = None"
  by (simp add: run_defs)

text \<open>
  The \<open>close\<close> listener of a process clears \<open>electronProcess\<close> whichever process is tracked.
  When the \<open>close\<close> of a killed process arrives after its successor was spawned, the
  successor is no longer tracked, and the next call does not kill it.
\<close>

lemma late_close_loses_the_handle:
  "possible_run (init 60 Map.empty)
     [ToolCall 7 1000 spawns (ask_user_call (Value (js ''proj'')) (Value (js ''Anything?'')) Undefined),
      ToolCall 8 1001 spawns (ask_user_call (Value (js ''proj'')) (Value (js ''Pick one'')) Undefined),
      Close 0,
      ToolCall 9 1002 spawns (confirmation_call (Value (js ''proj'')) (Value (js ''Done X'')))] \<and>
   electronProcess (run (init 60 Map.empty)
     [ToolCall 7 1000 spawns (ask_user_call (Value (js ''proj'')) (Value (js ''Anything?'')) Undefined),
      ToolCall 8 1001 spawns (ask_user_call (Value (js ''proj'')) (Value (js ''Pick one'')) Undefined),
      Close 0]) = None \<and>
   killed (run (init 60 Map.empty)
     [ToolCall 7 1000 spawns (ask_user_call (Value (js ''proj'')) (Value (js ''Anything?'')) Undefined),
      ToolCall 8 1001 spawns (ask_user_call (Value (js ''proj'')) (Value (js ''Pick one'')) Undefined),
      Close 0,
      ToolCall 9 1002 spawns (confirmation_call (Value (js ''proj'')) (Value (js ''Done X'')))]) = [0] \<and>
   closed (run (init 60 Map.empty)
     [ToolCall 7 1000 spawns (ask_user_call (Value (js ''proj'')) (Value (js ''Anything?'')) Undefined),
      ToolCall 8 1001 spawns (ask_user_call (Value (js ''proj'')) (Value (js ''Pick one'')) Undefined),
      Close 0,
      ToolCall 9 1002 spawns (confirmation_call (Value (js ''proj'')) (Value (js ''Done X'')))]) = [0] \<and>
   length (spawned (run (init 60 Map.empty)
     [ToolCall 7 1000 spawns (ask_user_call (Value (js ''proj'')) (Value (js ''Anything?'')) Undefined),
      ToolCall 8 1001 spawns (ask_user_call (Value (js ''proj'')) (Value (js ''Pick one'')) Undefined),
      Close 0,
      ToolCall 9 1002 spawns (confirmation_call (Value (js ''proj'')) (Value (js ''Done X'')))])) = 3"
  by (simp add: run_defs)

section \<open>The line protocol\<close>

text \<open>
  C9. A line that is \<open>DIALOG_CLOSED\<close> once trimmed changes nothing: the loop body returns
  the state it was given, so the pending requests and every other global are as before
  and no promise is resolved. The same holds when the line arrives as a chunk of its own.
\<close>

theorem dialog_closed_line_changes_nothing:
  "trim line = js ''DIALOG_CLOSED'' \<Longrightarrow>
   process_line st line = st \<and> step st (StdoutData p line) = st"
  by (simp add: process_line_closed stdout_data_closed_chunk)

theorem dialog_closed_line_changes_nothing_witness:
  "trim (js ''DIALOG_CLOSED'') = js ''DIALOG_CLOSED'' \<and>
   process_line one_pending (js ''DIALOG_CLOSED'') = one_pending \<and>
   step one_pending (StdoutData 0 (js ''DIALOG_CLOSED'')) = one_pending"
proof -
  have h: "trim (js ''DIALOG_CLOSED'') = js ''DIALOG_CLOSED''"
    by (simp add: trim_def js_def is_white_space_def)
  show ?thesis
    using h dialog_closed_line_changes_nothing [OF h, of one_pending 0] by simp
qed

text \<open>
  C5. A line \<open>TEXT_FROM_RENDERER:\<close> followed by nothing or by white space only resolves
  the oldest pending request with the empty-input result, which is neither a reply
  result nor the timeout result. The same holds when the line arrives as a chunk of its
  own, from any process.
\<close>

theorem blank_reply_line_is_empty_reply:
  assumes "\<forall>c\<in>set payload. is_white_space c"
    and "pendingRequests st = (rid, c) # rest" and "rid \<noteq> []"
  shows "process_line st (js ''TEXT_FROM_RENDERER:'' @ payload) =
           resolve c empty_result
             (st\<lparr>pendingRequests := AList.delete rid (pendingRequests st)\<rparr>) \<and>
         step st (StdoutData p (js ''TEXT_FROM_RENDERER:'' @ payload)) =
           resolve c empty_result
             (st\<lparr>pendingRequests := AList.delete rid (pendingRequests st)\<rparr>) \<and>
         (\<forall>r. empty_result \<noteq> replied_result r) \<and> empty_result \<noteq> timeout_result"
proof -
  have t: "trim (js ''TEXT_FROM_RENDERER:'' @ payload) = js ''TEXT_FROM_RENDERER:''"
    using assms(1) by (simp add: trim_append_ws marker_ends)
  have e: "handleUserResponse st [] =
             resolve c empty_result
               (st\<lparr>pendingRequests := AList.delete rid (pendingRequests st)\<rparr>)"
    using handleUserResponse_first [OF assms(2,3), of "[]"]
    by (simp add: trim_Nil marker_distinct)
  have "trim (js ''TEXT_FROM_RENDERER:'' @ payload) = js ''TEXT_FROM_RENDERER:'' @ []"
    using t by simp
  then have "process_line st (js ''TEXT_FROM_RENDERER:'' @ payload) =
               handleUserResponse st (trim [])"
    by (rule process_line_text)
  then have 1: "process_line st (js ''TEXT_FROM_RENDERER:'' @ payload) =
             resolve c empty_result
               (st\<lparr>pendingRequests := AList.delete rid (pendingRequests st)\<rparr>)"
    by (simp only: trim_Nil e)
  have "trim (js ''TEXT_FROM_RENDERER:'') = js ''TEXT_FROM_RENDERER:'' @ []"
    using trim_append_ws [OF marker_ends, of "[]"] by simp
  then have "process_line st (js ''TEXT_FROM_RENDERER:'') = handleUserResponse st (trim [])"
    by (rule process_line_text)
  then have "stdout_data st (js ''TEXT_FROM_RENDERER:'' @ payload) = handleUserResponse st []"
    by (simp add: stdout_data_def t split_lines_one [OF marker_no_line_feed] trim_Nil)
  then have 2: "step st (StdoutData p (js ''TEXT_FROM_RENDERER:'' @ payload)) =
             resolve c empty_result
               (st\<lparr>pendingRequests := AList.delete rid (pendingRequests st)\<rparr>)"
    by (simp only: step.simps e)
  from 1 2 result_distinct show ?thesis by metis
qed

theorem blank_reply_line_is_empty_reply_witness:
  "list_all is_white_space (js ''   '') \<and>
   pendingRequests one_pending = (js ''1000'', 7) # [] \<and> js ''1000'' \<noteq> [] \<and>
   resolved (process_line one_pending (js ''TEXT_FROM_RENDERER:'' @ js ''   '')) =
     [(7, empty_result)]"
proof -
  have h1: "\<forall>c\<in>set (js ''   ''). is_white_space c"
    by (simp add: js_def is_white_space_def)
  have h2: "pendingRequests one_pending = (js ''1000'', 7) # []"
    by (simp add: one_pending_fields)
  have h3: "js ''1000'' \<noteq> []"
    by (simp add: js_def)
  show ?thesis
    using h1 h2 h3 blank_reply_line_is_empty_reply [OF h1 h2 h3, of 0]
    by (simp add: resolve_fields one_pending_fields list_all_iff)
qed

text \<open>
  C3. The reply \<open>TIMEOUT\<close> is not blank, yet the caller is told that the user did not
  reply: \<open>handleUserResponse\<close> takes the text \<open>'TIMEOUT'\<close> for the mark of a timeout.
\<close>

theorem reply_TIMEOUT_is_reported_as_timeout:
  "trim (js ''TIMEOUT'') = js ''TIMEOUT'' \<and>
   resolved (run (init 60 Map.empty)
     [ToolCall 7 1000 spawns (ask_user_call (Value (js ''proj'')) (Value (js ''Anything?'')) Undefined),
      StdoutData 0 (js ''TEXT_FROM_RENDERER:TIMEOUT'')]) = [(7, timeout_result)] \<and>
   timeout_result \<noteq> replied_result (js ''TIMEOUT'')"
  by (simp add: run_defs result_distinct)

text \<open>
  With the timeout marker whole within a chunk, among lines that are neither a reply nor
  the marker, the first request of the map is resolved with the timeout result.
\<close>

lemma timeout_line_resolves_oldest_request:
  assumes "pendingRequests st = (rid, c) # rest" and "rid \<noteq> []"
    and "concat (map split_lines chunks) = prior @ [line] @ later"
    and "\<forall>l\<in>set (prior @ later).
           \<not> startsWith (trim l) (js ''TEXT_FROM_RENDERER:'') \<and> trim l \<noteq> js ''DIALOG_TIMEOUT''"
    and "trim line = js ''DIALOG_TIMEOUT''"
  shows "run st (map (StdoutData p) chunks) =
           resolve c timeout_result
             (st\<lparr>pendingRequests := AList.delete rid (pendingRequests st)\<rparr>)"
proof -
  have n1: "\<forall>l\<in>set prior.
           \<not> startsWith (trim l) (js ''TEXT_FROM_RENDERER:'') \<and> trim l \<noteq> js ''DIALOG_TIMEOUT''"
    and n2: "\<forall>l\<in>set later.
           \<not> startsWith (trim l) (js ''TEXT_FROM_RENDERER:'') \<and> trim l \<noteq> js ''DIALOG_TIMEOUT''"
    using assms(4) by auto
  have "run st (map (StdoutData p) chunks) = foldl process_line st (prior @ [line] @ later)"
    by (simp only: run_stdout_chunks assms(3))
  also have "\<dots> = foldl process_line (process_line (foldl process_line st prior) line) later"
    by simp
  also have "\<dots> = foldl process_line (handleUserResponse st (js ''TIMEOUT'')) later"
    by (simp only: foldl_process_line_noise [OF n1] process_line_timeout [OF assms(5)])
  also have "\<dots> = handleUserResponse st (js ''TIMEOUT'')"
    using n2 by (rule foldl_process_line_noise)
  also have "\<dots> = resolve c timeout_result
             (st\<lparr>pendingRequests := AList.delete rid (pendingRequests st)\<rparr>)"
    using handleUserResponse_first [OF assms(1,2), of "js ''TIMEOUT''"] by simp
  finally show ?thesis .
qed

text \<open>
  C6. With two requests pending, \<open>DIALOG_TIMEOUT\<close> written by the second process times
  out the first caller: \<open>handleUserResponse\<close> takes the first key of the map, the oldest
  request, where its comment says the most recent. The second request, whose own process
  timed out, stays pending, and the second caller is later given the reply written by a
  third process.
\<close>

theorem timeout_on_second_stream_goes_to_first_caller:
  "possible_run (init 60 Map.empty)
     [ToolCall 7 1000 spawns (ask_user_call (Value (js ''proj'')) (Value (js ''Anything?'')) Undefined),
      ToolCall 8 1001 spawns (ask_user_call (Value (js ''proj'')) (Value (js ''Pick one'')) Undefined),
      StdoutData 1 (js ''DIALOG_TIMEOUT''),
      ToolCall 9 1002 spawns (confirmation_call (Value (js ''proj'')) (Value (js ''Done X''))),
      StdoutData 2 (js ''TEXT_FROM_RENDERER:ok'')] \<and>
   pendingRequests (run (init 60 Map.empty)
     [ToolCall 7 1000 spawns (ask_user_call (Value (js ''proj'')) (Value (js ''Anything?'')) Undefined),
      ToolCall 8 1001 spawns (ask_user_call (Value (js ''proj'')) (Value (js ''Pick one'')) Undefined)]) =
     [(js ''1000'', 7), (js ''1001'', 8)] \<and>
   resolved (run (init 60 Map.empty)
     [ToolCall 7 1000 spawns (ask_user_call (Value (js ''proj'')) (Value (js ''Anything?'')) Undefined),
      ToolCall 8 1001 spawns (ask_user_call (Value (js ''proj'')) (Value (js ''Pick one'')) Undefined),
      StdoutData 1 (js ''DIALOG_TIMEOUT'')]) = [(7, timeout_result)] \<and>
   pendingRequests (run (init 60 Map.empty)
     [ToolCall 7 1000 spawns (ask_user_call (Value (js ''proj'')) (Value (js ''Anything?'')) Undefined),
      ToolCall 8 1001 spawns (ask_user_call (Value (js ''proj'')) (Value (js ''Pick one'')) Undefined),
      StdoutData 1 (js ''DIALOG_TIMEOUT'')]) = [(js ''1001'', 8)] \<and>
   resolved (run (init 60 Map.empty)
     [ToolCall 7 1000 spawns (ask_user_call (Value (js ''proj'')) (Value (js ''Anything?'')) Undefined),
      ToolCall 8 1001 spawns (ask_user_call (Value (js ''proj'')) (Value (js ''Pick one'')) Undefined),
      StdoutData 1 (js ''DIALOG_TIMEOUT''),
      ToolCall 9 1002 spawns (confirmation_call (Value (js ''proj'')) (Value (js ''Done X''))),
      StdoutData 2 (js ''TEXT_FROM_RENDERER:ok'')]) =
     [(7, timeout_result), (8, replied_result (js ''ok''))]"
  by (simp add: run_defs timeout_result_def replied_result_def)

text \<open>
  C10. When no request is pending, a terminal event is dropped: \<open>handleUserResponse\<close>
  returns the state unchanged, whatever the response, and so does a whole chunk of output
  of any process. Nothing is resolved and nothing is thrown. A request is removed from the
  map before its promise is resolved, so in a run whose calls have promises of their own
  no call is resolved twice.
\<close>

theorem terminal_event_without_pending_request_is_ignored:
  "(pendingRequests st = [] \<longrightarrow>
      handleUserResponse st r = st \<and> step st (StdoutData p d) = st) \<and>
   (distinct (call_ids evs) \<longrightarrow>
      distinct (map fst (resolved (run (init t penv) evs))))"
  by (simp add: handleUserResponse_none stdout_data_none no_call_resolved_twice)

theorem terminal_event_without_pending_request_is_ignored_witness:
  "pendingRequests (step one_pending (StdoutData 0 (js ''DIALOG_TIMEOUT''))) = [] \<and>
   resolved (step one_pending (StdoutData 0 (js ''DIALOG_TIMEOUT''))) = [(7, timeout_result)] \<and>
   step (step one_pending (StdoutData 0 (js ''DIALOG_TIMEOUT'')))
     (StdoutData 0 (js ''TEXT_FROM_RENDERER:late'')) =
   step one_pending (StdoutData 0 (js ''DIALOG_TIMEOUT'')) \<and>
   distinct (call_ids
     [ToolCall 7 1000 spawns (ask_user_call (Value (js ''proj'')) (Value (js ''Anything?'')) Undefined),
      ToolCall 8 1001 spawns (ask_user_call (Value (js ''proj'')) (Value (js ''Pick one'')) Undefined),
      StdoutData 1 (js ''DIALOG_TIMEOUT''),
      StdoutData 1 (js ''TEXT_FROM_RENDERER:late''),
      StdoutData 1 (js ''TEXT_FROM_RENDERER:later'')]) \<and>
   distinct (map fst (resolved (run (init 60 Map.empty)
     [ToolCall 7 1000 spawns (ask_user_call (Value (js ''proj'')) (Value (js ''Anything?'')) Undefined),
      ToolCall 8 1001 spawns (ask_user_call (Value (js ''proj'')) (Value (js ''Pick one'')) Undefined),
      StdoutData 1 (js ''DIALOG_TIMEOUT''),
      StdoutData 1 (js ''TEXT_FROM_RENDERER:late''),
      StdoutData 1 (js ''TEXT_FROM_RENDERER:later'')]))) \<and>
   map fst (resolved (run (init 60 Map.empty)
     [ToolCall 7 1000 spawns (ask_user_call (Value (js ''proj'')) (Value (js ''Anything?'')) Undefined),
      ToolCall 8 1001 spawns (ask_user_call (Value (js ''proj'')) (Value (js ''Pick one'')) Undefined),
      StdoutData 1 (js ''DIALOG_TIMEOUT''),
      StdoutData 1 (js ''TEXT_FROM_RENDERER:late''),
      StdoutData 1 (js ''TEXT_FROM_RENDERER:later'')])) = [7, 8]"
proof -
  let ?evs = "[ToolCall 7 1000 spawns (ask_user_call (Value (js ''proj'')) (Value (js ''Anything?'')) Undefined),
      ToolCall 8 1001 spawns (ask_user_call (Value (js ''proj'')) (Value (js ''Pick one'')) Undefined),
      StdoutData 1 (js ''DIALOG_TIMEOUT''),
      StdoutData 1 (js ''TEXT_FROM_RENDERER:late''),
      StdoutData 1 (js ''TEXT_FROM_RENDERER:later'')]"
  have h: "pendingRequests (step one_pending (StdoutData 0 (js ''DIALOG_TIMEOUT''))) = []"
    by (simp add: run_defs)
  have r: "resolved (step one_pending (StdoutData 0 (js ''DIALOG_TIMEOUT''))) =
             [(7, timeout_result)]"
    by (simp add: run_defs)
  have g: "distinct (call_ids ?evs)"
    by simp
  have m: "map fst (resolved (run (init 60 Map.empty) ?evs)) = [7, 8]"
    by (simp add: run_defs)
  from terminal_event_without_pending_request_is_ignored
    [where st = "step one_pending (StdoutData 0 (js ''DIALOG_TIMEOUT''))"
       and r = "js ''late''" and p = 0 and d = "js ''TEXT_FROM_RENDERER:late''"
       and evs = ?evs and t = 60 and penv = Map.empty]
    h g
  have "step (step one_pending (StdoutData 0 (js ''DIALOG_TIMEOUT'')))
          (StdoutData 0 (js ''TEXT_FROM_RENDERER:late'')) =
        step one_pending (StdoutData 0 (js ''DIALOG_TIMEOUT''))"
    and "distinct (map fst (resolved (run (init 60 Map.empty) ?evs)))"
    by blast+
  with h r g m show ?thesis by blast
qed

section \<open>Tool calls\<close>

text \<open>
  C8. A call whose name is neither \<open>ask_user\<close> nor \<open>request_user_confirmation\<close> throws
  \<open>Error("Unknown tool: " + name)\<close>, whatever its arguments. The state after the call
  differs from the state before only in the record of the error thrown, so no process
  was spawned and no request stored.
\<close>

theorem unknown_tool_is_rejected:
  assumes "name req \<noteq> js ''ask_user''" and "name req \<noteq> js ''request_user_confirmation''"
  shows "call_tool st c now reply req =
           (Some (Error (js ''Unknown tool: '' @ name req)), st) \<and>
         step st (ToolCall c now reply req) =
           st\<lparr>thrown := thrown st @ [(c, Error (js ''Unknown tool: '' @ name req))]\<rparr> \<and>
         spawned (step st (ToolCall c now reply req)) = spawned st"
  using assms by (simp add: call_tool_def)

theorem unknown_tool_is_rejected_witness:
  "js ''ask_usr'' \<noteq> js ''ask_user'' \<and> js ''ask_usr'' \<noteq> js ''request_user_confirmation'' \<and>
   call_tool one_pending 8 1001 spawns \<lparr>name = js ''ask_usr'', arguments = None\<rparr> =
     (Some (Error (js ''Unknown tool: ask_usr'')), one_pending) \<and>
   length (spawned (step one_pending
     (ToolCall 8 1001 spawns \<lparr>name = js ''ask_usr'', arguments = None\<rparr>))) = 1"
proof -
  have h1: "name \<lparr>name = js ''ask_usr'', arguments = None\<rparr> \<noteq> js ''ask_user''"
    by (simp add: js_eq_iff)
  have h2: "name \<lparr>name = js ''ask_usr'', arguments = None\<rparr> \<noteq>
              js ''request_user_confirmation''"
    by (simp add: js_eq_iff)
  have j: "js ''Unknown tool: '' @ js ''ask_usr'' = js ''Unknown tool: ask_usr''"
    by (simp add: js_def)
  show ?thesis
    using h1 h2 unknown_tool_is_rejected [OF h1 h2, of one_pending 8 1001 spawns]
    by (simp add: j one_pending_fields)
qed

text \<open>
  C7. A call of \<open>request_user_confirmation\<close> without an arguments object spawns nothing
  and throws a \<open>TypeError\<close>; so does, with the error of \<open>spawn\<close>, a call whose summary
  holds a null byte.
\<close>

theorem confirmation_without_arguments_spawns_nothing:
  "spawned (step (init 60 Map.empty)
     (ToolCall 7 1000 spawns
        \<lparr>name = js ''request_user_confirmation'', arguments = None\<rparr>)) = [] \<and>
   thrown (step (init 60 Map.empty)
     (ToolCall 7 1000 spawns
        \<lparr>name = js ''request_user_confirmation'', arguments = None\<rparr>)) = [(7, TypeError)] \<and>
   spawned (step (init 60 Map.empty)
     (ToolCall 7 1000 \<lparr>refuses = False, error_message = js ''null bytes''\<rparr>
        (confirmation_call (Value (js ''proj'')) (Value (js ''Done'' @ [0] @ js ''X''))))) = [] \<and>
   thrown (step (init 60 Map.empty)
     (ToolCall 7 1000 \<lparr>refuses = False, error_message = js ''null bytes''\<rparr>
        (confirmation_call (Value (js ''proj'')) (Value (js ''Done'' @ [0] @ js ''X''))))) =
     [(7, SpawnError (js ''null bytes''))]"
  by (simp add: run_defs)

text \<open>
  C7, as the handler behaves. A call of \<open>request_user_confirmation\<close> without an arguments
  object throws a \<open>TypeError\<close> and changes nothing. With an arguments object, when \<open>spawn\<close>
  throws the caller is given that error and no process is spawned; when it does not, one
  process is spawned and tracked, and its environment has \<open>DIALOG_TIMEOUT\<close> \<open>"0"\<close> whatever
  the configured default is, \<open>DIALOG_TEXTAREA_HEIGHT\<close> \<open>"300"\<close> and
  \<open>DIALOG_PREDEFINED_OPTIONS\<close> \<open>"[]"\<close>.
\<close>

theorem confirmation_spawn_values:
  assumes "name req = js ''request_user_confirmation''"
  shows "(case arguments req of
            None \<Rightarrow> call_tool st c now reply req = (Some TypeError, st)
          | Some a \<Rightarrow>
              if spawn_throws reply (projectName a) (summary a) then
                fst (call_tool st c now reply req) = Some (SpawnError (error_message reply)) \<and>
                spawned (snd (call_tool st c now reply req)) = spawned st \<and>
                electronProcess (snd (call_tool st c now reply req)) = None
              else
                fst (call_tool st c now reply req) = None \<and>
                length (spawned (snd (call_tool st c now reply req))) =
                  Suc (length (spawned st)) \<and>
                electronProcess (snd (call_tool st c now reply req)) =
                  Some (length (spawned st)) \<and>
                last (spawned (snd (call_tool st c now reply req))) (js ''DIALOG_TIMEOUT'') =
                  Some (js ''0'') \<and>
                last (spawned (snd (call_tool st c now reply req)))
                  (js ''DIALOG_TEXTAREA_HEIGHT'') = Some (js ''300'') \<and>
                last (spawned (snd (call_tool st c now reply req)))
                  (js ''DIALOG_PREDEFINED_OPTIONS'') = Some (js ''[]''))"
proof (cases "arguments req")
  case None
  with assms show ?thesis by (simp add: call_tool_no_arguments)
next
  case (Some a)
  show ?thesis
    using call_tool_confirmation [OF assms Some, of st c now reply]
    by (simp add: Some startElectronGUIWithData_fields startElectronGUIWithData_handle
        startElectronGUIWithData_spawned dialog_env_values String_of_values
        stringify_options_def JSON_stringify_Nil)
qed

theorem confirmation_spawn_values_witness:
  "name (confirmation_call (Value (js ''proj'')) (Value (js ''Done X''))) =
     js ''request_user_confirmation'' \<and>
   arguments (confirmation_call (Value (js ''proj'')) (Value (js ''Done X''))) =
     Some \<lparr>projectName = Value (js ''proj''), message = Undefined,
           summary = Value (js ''Done X''), predefinedOptions = Undefined\<rparr> \<and>
   \<not> spawn_throws spawns (Value (js ''proj'')) (Value (js ''Done X'')) \<and>
   fst (call_tool (init 60 Map.empty) 7 1000 spawns
     (confirmation_call (Value (js ''proj'')) (Value (js ''Done X'')))) = None \<and>
   length (spawned (snd (call_tool (init 60 Map.empty) 7 1000 spawns
     (confirmation_call (Value (js ''proj'')) (Value (js ''Done X'')))))) = 1 \<and>
   last (spawned (snd (call_tool (init 60 Map.empty) 7 1000 spawns
     (confirmation_call (Value (js ''proj'')) (Value (js ''Done X''))))))
     (js ''DIALOG_TIMEOUT'') = Some (js ''0'') \<and>
   last (spawned (snd (call_tool (init 60 Map.empty) 7 1000 spawns
     (confirmation_call (Value (js ''proj'')) (Value (js ''Done X''))))))
     (js ''DIALOG_TEXTAREA_HEIGHT'') = Some (js ''300'') \<and>
   last (spawned (snd (call_tool (init 60 Map.empty) 7 1000 spawns
     (confirmation_call (Value (js ''proj'')) (Value (js ''Done X''))))))
     (js ''DIALOG_PREDEFINED_OPTIONS'') = Some (js ''[]'')"
proof -
  let ?req = "confirmation_call (Value (js ''proj'')) (Value (js ''Done X''))"
  have h1: "name ?req = js ''request_user_confirmation''"
    by (simp add: confirmation_call_def)
  have h2: "arguments ?req =
     Some \<lparr>projectName = Value (js ''proj''), message = Undefined,
           summary = Value (js ''Done X''), predefinedOptions = Undefined\<rparr>"
    by (simp add: confirmation_call_def)
  have h3: "\<not> spawn_throws spawns (Value (js ''proj'')) (Value (js ''Done X''))"
    by (simp add: spawn_throws_def has_null_byte_def spawns_def js_def)
  have s: "spawned (init 60 Map.empty) = []"
    by (simp add: init_def)
  from confirmation_spawn_values [OF h1, of "init 60 Map.empty" 7 1000 spawns] h3
  have "fst (call_tool (init 60 Map.empty) 7 1000 spawns ?req) = None \<and>
        length (spawned (snd (call_tool (init 60 Map.empty) 7 1000 spawns ?req))) = 1 \<and>
        last (spawned (snd (call_tool (init 60 Map.empty) 7 1000 spawns ?req)))
          (js ''DIALOG_TIMEOUT'') = Some (js ''0'') \<and>
        last (spawned (snd (call_tool (init 60 Map.empty) 7 1000 spawns ?req)))
          (js ''DIALOG_TEXTAREA_HEIGHT'') = Some (js ''300'') \<and>
        last (spawned (snd (call_tool (init 60 Map.empty) 7 1000 spawns ?req)))
          (js ''DIALOG_PREDEFINED_OPTIONS'') = Some (js ''[]'')"
    by (simp add: h2 s)
  with h1 h2 h3 show ?thesis by blast
qed

text \<open>
  C4. The handler checks no field. With projectName missing, \<open>ask_user\<close> throws nothing,
  stores the request and spawns a process whose \<open>DIALOG_PROJECT_NAME\<close> is unset.
\<close>

theorem ask_user_without_projectName_spawns:
  "thrown (step (init 60 Map.empty)
     (ToolCall 7 1000 spawns
        (ask_user_call Undefined (Value (js ''Anything?'')) Undefined))) = [] \<and>
   length (spawned (step (init 60 Map.empty)
     (ToolCall 7 1000 spawns
        (ask_user_call Undefined (Value (js ''Anything?'')) Undefined)))) = 1 \<and>
   electronProcess (step (init 60 Map.empty)
     (ToolCall 7 1000 spawns
        (ask_user_call Undefined (Value (js ''Anything?'')) Undefined))) = Some 0 \<and>
   pendingRequests (step (init 60 Map.empty)
     (ToolCall 7 1000 spawns
        (ask_user_call Undefined (Value (js ''Anything?'')) Undefined))) = [(js ''1000'', 7)] \<and>
   last (spawned (step (init 60 Map.empty)
     (ToolCall 7 1000 spawns
        (ask_user_call Undefined (Value (js ''Anything?'')) Undefined))))
     (js ''DIALOG_PROJECT_NAME'') = None"
proof -
  let ?req = "ask_user_call Undefined (Value (js ''Anything?'')) Undefined"
  have n: "name ?req = js ''ask_user''"
    and a: "arguments ?req =
      Some \<lparr>projectName = Undefined, message = Value (js ''Anything?''), summary = Undefined,
            predefinedOptions = Undefined\<rparr>"
    by (simp_all add: ask_user_call_def)
  have t: "\<not> spawn_throws spawns Undefined (Value (js ''Anything?''))"
    by (simp add: spawn_throws_def has_null_byte_def spawns_def js_def)
  have f: "fst (call_tool (init 60 Map.empty) 7 1000 spawns ?req) = None"
    using call_tool_ask_user(1) [OF n a, of "init 60 Map.empty" 7 1000 spawns] t by simp
  have s: "step (init 60 Map.empty) (ToolCall 7 1000 spawns ?req) =
             snd (call_tool (init 60 Map.empty) 7 1000 spawns ?req)"
    using f by (cases "call_tool (init 60 Map.empty) 7 1000 spawns ?req") simp
  show ?thesis
    unfolding s call_tool_ask_user(2) [OF n a]
    using t
    by (simp add: startElectronGUIWithData_fields startElectronGUIWithData_handle
        startElectronGUIWithData_spawned dialog_env_values env_value_def init_def String_of_def
        digits.simps digit_def js_def [of "''1000''"])
qed

text \<open>
  C4, as the handler behaves. For a known tool, a request without an arguments object
  throws a \<open>TypeError\<close> before anything is stored or spawned. A request with an arguments
  object is not checked: its pending request is stored and \<open>spawn\<close> is called, whatever
  the fields hold. When \<open>spawn\<close> throws, nothing is spawned and the caller is given the
  error, wrapped for \<open>ask_user\<close>; when it does not, one process is spawned, and the
  project name and the message (or summary) reach its environment as they were given:
  unset when absent, the text \<open>null\<close> when null.
\<close>

theorem known_tool_call_is_not_validated:
  assumes "name req = js ''ask_user'' \<or> name req = js ''request_user_confirmation''"
  shows "(case arguments req of
            None \<Rightarrow>
              call_tool st c now reply req = (Some TypeError, st) \<and>
              step st (ToolCall c now reply req) = st\<lparr>thrown := thrown st @ [(c, TypeError)]\<rparr>
          | Some a \<Rightarrow>
              pendingRequests (snd (call_tool st c now reply req)) =
                AList.update (String_of (int now)) c (pendingRequests st) \<and>
              (if spawn_throws reply (projectName a)
                    (if name req = js ''ask_user'' then message a else summary a) then
                 fst (call_tool st c now reply req) =
                   Some (if name req = js ''ask_user''
                         then Error (js ''Failed to show dialog: '' @ error_message reply)
                         else SpawnError (error_message reply)) \<and>
                 spawned (snd (call_tool st c now reply req)) = spawned st \<and>
                 electronProcess (snd (call_tool st c now reply req)) = None
               else
                 fst (call_tool st c now reply req) = None \<and>
                 length (spawned (snd (call_tool st c now reply req))) =
                   Suc (length (spawned st)) \<and>
                 last (spawned (snd (call_tool st c now reply req)))
                   (js ''DIALOG_PROJECT_NAME'') = env_value (projectName a) \<and>
                 last (spawned (snd (call_tool st c now reply req))) (js ''DIALOG_MESSAGE'') =
                   env_value (if name req = js ''ask_user'' then message a else summary a)))"
proof (cases "arguments req")
  case None
  with assms have "call_tool st c now reply req = (Some TypeError, st)"
    by (simp add: call_tool_no_arguments)
  with None show ?thesis by simp
next
  case (Some a)
  from assms show ?thesis
  proof
    assume n: "name req = js ''ask_user''"
    show ?thesis
      using call_tool_ask_user [OF n Some, of st c now reply]
      by (simp add: Some n startElectronGUIWithData_fields startElectronGUIWithData_handle
          startElectronGUIWithData_spawned dialog_env_values)
  next
    assume n: "name req = js ''request_user_confirmation''"
    show ?thesis
      using call_tool_confirmation [OF n Some, of st c now reply]
      by (simp add: Some n startElectronGUIWithData_fields startElectronGUIWithData_handle
          startElectronGUIWithData_spawned dialog_env_values tool_names_distinct)
  qed
qed

theorem known_tool_call_is_not_validated_witness:
  "name (ask_user_call Undefined (Value (js ''Anything?'')) Undefined) = js ''ask_user'' \<and>
   arguments (ask_user_call Undefined (Value (js ''Anything?'')) Undefined) =
     Some \<lparr>projectName = Undefined, message = Value (js ''Anything?''), summary = Undefined,
           predefinedOptions = Undefined\<rparr> \<and>
   \<not> spawn_throws spawns Undefined (Value (js ''Anything?'')) \<and>
   fst (call_tool (init 60 Map.empty) 7 1000 spawns
     (ask_user_call Undefined (Value (js ''Anything?'')) Undefined)) = None \<and>
   length (spawned (snd (call_tool (init 60 Map.empty) 7 1000 spawns
     (ask_user_call Undefined (Value (js ''Anything?'')) Undefined)))) = 1 \<and>
   last (spawned (snd (call_tool (init 60 Map.empty) 7 1000 spawns
     (ask_user_call Undefined (Value (js ''Anything?'')) Undefined))))
     (js ''DIALOG_PROJECT_NAME'') = None \<and>
   last (spawned (snd (call_tool (init 60 Map.empty) 7 1000 spawns
     (ask_user_call Undefined (Value (js ''Anything?'')) Undefined))))
     (js ''DIALOG_MESSAGE'') = Some (js ''Anything?'') \<and>
   call_tool (init 60 Map.empty) 7 1000 spawns \<lparr>name = js ''ask_user'', arguments = None\<rparr> =
     (Some TypeError, init 60 Map.empty)"
proof -
  let ?req = "ask_user_call Undefined (Value (js ''Anything?'')) Undefined"
  have n: "name ?req = js ''ask_user''"
    by (simp add: ask_user_call_def)
  then have h1: "name ?req = js ''ask_user'' \<or> name ?req = js ''request_user_confirmation''"
    by simp
  have h2: "arguments ?req =
     Some \<lparr>projectName = Undefined, message = Value (js ''Anything?''), summary = Undefined,
           predefinedOptions = Undefined\<rparr>"
    by (simp add: ask_user_call_def)
  have h3: "name \<lparr>name = js ''ask_user'', arguments = None\<rparr> = js ''ask_user'' \<or>
            name \<lparr>name = js ''ask_user'', arguments = None\<rparr> =
              js ''request_user_confirmation''"
    by simp
  have t: "\<not> spawn_throws spawns Undefined (Value (js ''Anything?''))"
    by (simp add: spawn_throws_def has_null_byte_def spawns_def js_def)
  have s: "spawned (init 60 Map.empty) = []"
    by (simp add: init_def)
  from known_tool_call_is_not_validated [OF h1, of "init 60 Map.empty" 7 1000 spawns] t
  have c1: "fst (call_tool (init 60 Map.empty) 7 1000 spawns ?req) = None \<and>
      length (spawned (snd (call_tool (init 60 Map.empty) 7 1000 spawns ?req))) = 1 \<and>
      last (spawned (snd (call_tool (init 60 Map.empty) 7 1000 spawns ?req)))
        (js ''DIALOG_PROJECT_NAME'') = None \<and>
      last (spawned (snd (call_tool (init 60 Map.empty) 7 1000 spawns ?req)))
        (js ''DIALOG_MESSAGE'') = Some (js ''Anything?'')"
    by (simp add: h2 n s env_value_def)
  have c2: "call_tool (init 60 Map.empty) 7 1000 spawns
              \<lparr>name = js ''ask_user'', arguments = None\<rparr> =
            (Some TypeError, init 60 Map.empty)"
    using known_tool_call_is_not_validated [OF h3, of "init 60 Map.empty" 7 1000 spawns]
    by simp
  from n h2 t c1 c2 show ?thesis by blast
qed

section \<open>Sessions\<close>

text \<open>
  C2. Two calls one millisecond apart leave two requests pending at once, with one
  tracked process; and after the first process has written \<open>DIALOG_CLOSED\<close> and closed,
  a request is pending with no tracked process at all.
\<close>

theorem two_requests_pending_at_once:
  "possible_run (init 60 Map.empty)
     [ToolCall 7 1000 spawns (ask_user_call (Value (js ''proj'')) (Value (js ''Anything?'')) Undefined),
      ToolCall 8 1001 spawns (ask_user_call (Value (js ''proj'')) (Value (js ''Pick one'')) Undefined)] \<and>
   pendingRequests (run (init 60 Map.empty)
     [ToolCall 7 1000 spawns (ask_user_call (Value (js ''proj'')) (Value (js ''Anything?'')) Undefined),
      ToolCall 8 1001 spawns (ask_user_call (Value (js ''proj'')) (Value (js ''Pick one'')) Undefined)]) =
     [(js ''1000'', 7), (js ''1001'', 8)] \<and>
   electronProcess (run (init 60 Map.empty)
     [ToolCall 7 1000 spawns (ask_user_call (Value (js ''proj'')) (Value (js ''Anything?'')) Undefined),
      ToolCall 8 1001 spawns (ask_user_call (Value (js ''proj'')) (Value (js ''Pick one'')) Undefined)]) =
     Some 1 \<and>
   possible_run (init 60 Map.empty)
     [ToolCall 7 1000 spawns (ask_user_call (Value (js ''proj'')) (Value (js ''Anything?'')) Undefined),
      StdoutData 0 (js ''DIALOG_CLOSED''), Close 0] \<and>
   pendingRequests (run (init 60 Map.empty)
     [ToolCall 7 1000 spawns (ask_user_call (Value (js ''proj'')) (Value (js ''Anything?'')) Undefined),
      StdoutData 0 (js ''DIALOG_CLOSED''), Close 0]) = [(js ''1000'', 7)] \<and>
   electronProcess (run (init 60 Map.empty)
     [ToolCall 7 1000 spawns (ask_user_call (Value (js ''proj'')) (Value (js ''Anything?'')) Undefined),
      StdoutData 0 (js ''DIALOG_CLOSED''), Close 0]) = None"
  by (simp add: run_defs)

text \<open>
  C2, as the module behaves. In every state reached from the initial one, whatever the
  calls hold and whether \<open>spawn\<close> throws or not: the ids of the pending requests are
  distinct and non-empty; at most one process handle is tracked, and it is the process
  spawned last, on which \<open>kill()\<close> was not called; and \<open>kill()\<close> was only called on
  spawned processes. When every event of a process comes from a spawned process that has
  not closed, the tracked handle has not closed either.
\<close>

theorem reachable_state_invariant:
  "bridge_inv (run (init t penv) evs) \<and>
   (possible_run (init t penv) evs \<longrightarrow> handle_open (run (init t penv) evs))"
  using handle_open_run [OF handle_open_init, of t penv evs]
  by (simp add: run_init_inv) (simp add: run_def)

theorem reachable_state_invariant_witness:
  "possible_run (init 60 Map.empty)
     [ToolCall 7 1000 spawns
        (ask_user_call (Value (js ''proj'')) (Value (js ''Anything?'')) Undefined),
      Close 0,
      ToolCall 8 1001 spawns
        (ask_user_call (Value (js ''proj'')) (Value (js ''Pick one'')) Undefined),
      ToolCall 9 1002 \<lparr>refuses = False, error_message = js ''null bytes''\<rparr>
        (confirmation_call (Value (js ''proj'')) (Value (js ''Done'' @ [0] @ js ''X''))),
      ToolCall 10 1003 spawns
        (confirmation_call (Value (js ''proj'')) (Value (js ''Done X'')))] \<and>
   bridge_inv (run (init 60 Map.empty)
     [ToolCall 7 1000 spawns
        (ask_user_call (Value (js ''proj'')) (Value (js ''Anything?'')) Undefined),
      Close 0,
      ToolCall 8 1001 spawns
        (ask_user_call (Value (js ''proj'')) (Value (js ''Pick one'')) Undefined),
      ToolCall 9 1002 \<lparr>refuses = False, error_message = js ''null bytes''\<rparr>
        (confirmation_call (Value (js ''proj'')) (Value (js ''Done'' @ [0] @ js ''X''))),
      ToolCall 10 1003 spawns
        (confirmation_call (Value (js ''proj'')) (Value (js ''Done X'')))]) \<and>
   handle_open (run (init 60 Map.empty)
     [ToolCall 7 1000 spawns
        (ask_user_call (Value (js ''proj'')) (Value (js ''Anything?'')) Undefined),
      Close 0,
      ToolCall 8 1001 spawns
        (ask_user_call (Value (js ''proj'')) (Value (js ''Pick one'')) Undefined),
      ToolCall 9 1002 \<lparr>refuses = False, error_message = js ''null bytes''\<rparr>
        (confirmation_call (Value (js ''proj'')) (Value (js ''Done'' @ [0] @ js ''X''))),
      ToolCall 10 1003 spawns
        (confirmation_call (Value (js ''proj'')) (Value (js ''Done X'')))]) \<and>
   electronProcess (run (init 60 Map.empty)
     [ToolCall 7 1000 spawns
        (ask_user_call (Value (js ''proj'')) (Value (js ''Anything?'')) Undefined),
      Close 0,
      ToolCall 8 1001 spawns
        (ask_user_call (Value (js ''proj'')) (Value (js ''Pick one'')) Undefined),
      ToolCall 9 1002 \<lparr>refuses = False, error_message = js ''null bytes''\<rparr>
        (confirmation_call (Value (js ''proj'')) (Value (js ''Done'' @ [0] @ js ''X''))),
      ToolCall 10 1003 spawns
        (confirmation_call (Value (js ''proj'')) (Value (js ''Done X'')))]) = Some 2 \<and>
   killed (run (init 60 Map.empty)
     [ToolCall 7 1000 spawns
        (ask_user_call (Value (js ''proj'')) (Value (js ''Anything?'')) Undefined),
      Close 0,
      ToolCall 8 1001 spawns
        (ask_user_call (Value (js ''proj'')) (Value (js ''Pick one'')) Undefined),
      ToolCall 9 1002 \<lparr>refuses = False, error_message = js ''null bytes''\<rparr>
        (confirmation_call (Value (js ''proj'')) (Value (js ''Done'' @ [0] @ js ''X''))),
      ToolCall 10 1003 spawns
        (confirmation_call (Value (js ''proj'')) (Value (js ''Done X'')))]) = [1] \<and>
   closed (run (init 60 Map.empty)
     [ToolCall 7 1000 spawns
        (ask_user_call (Value (js ''proj'')) (Value (js ''Anything?'')) Undefined),
      Close 0,
      ToolCall 8 1001 spawns
        (ask_user_call (Value (js ''proj'')) (Value (js ''Pick one'')) Undefined),
      ToolCall 9 1002 \<lparr>refuses = False, error_message = js ''null bytes''\<rparr>
        (confirmation_call (Value (js ''proj'')) (Value (js ''Done'' @ [0] @ js ''X''))),
      ToolCall 10 1003 spawns
        (confirmation_call (Value (js ''proj'')) (Value (js ''Done X'')))]) = [0] \<and>
   length (spawned (run (init 60 Map.empty)
     [ToolCall 7 1000 spawns
        (ask_user_call (Value (js ''proj'')) (Value (js ''Anything?'')) Undefined),
      Close 0,
      ToolCall 8 1001 spawns
        (ask_user_call (Value (js ''proj'')) (Value (js ''Pick one'')) Undefined),
      ToolCall 9 1002 \<lparr>refuses = False, error_message = js ''null bytes''\<rparr>
        (confirmation_call (Value (js ''proj'')) (Value (js ''Done'' @ [0] @ js ''X''))),
      ToolCall 10 1003 spawns
        (confirmation_call (Value (js ''proj'')) (Value (js ''Done X'')))])) = 3 \<and>
   map snd (pendingRequests (run (init 60 Map.empty)
     [ToolCall 7 1000 spawns
        (ask_user_call (Value (js ''proj'')) (Value (js ''Anything?'')) Undefined),
      Close 0,
      ToolCall 8 1001 spawns
        (ask_user_call (Value (js ''proj'')) (Value (js ''Pick one'')) Undefined),
      ToolCall 9 1002 \<lparr>refuses = False, error_message = js ''null bytes''\<rparr>
        (confirmation_call (Value (js ''proj'')) (Value (js ''Done'' @ [0] @ js ''X''))),
      ToolCall 10 1003 spawns
        (confirmation_call (Value (js ''proj'')) (Value (js ''Done X'')))])) = [7, 8, 9, 10]"
proof -
  let ?tr = "[ToolCall 7 1000 spawns
        (ask_user_call (Value (js ''proj'')) (Value (js ''Anything?'')) Undefined),
      Close 0,
      ToolCall 8 1001 spawns
        (ask_user_call (Value (js ''proj'')) (Value (js ''Pick one'')) Undefined),
      ToolCall 9 1002 \<lparr>refuses = False, error_message = js ''null bytes''\<rparr>
        (confirmation_call (Value (js ''proj'')) (Value (js ''Done'' @ [0] @ js ''X''))),
      ToolCall 10 1003 spawns
        (confirmation_call (Value (js ''proj'')) (Value (js ''Done X'')))]"
  have h: "possible_run (init 60 Map.empty) ?tr"
    by (simp add: run_defs)
  have v: "electronProcess (run (init 60 Map.empty) ?tr) = Some 2"
    "killed (run (init 60 Map.empty) ?tr) = [1]"
    "closed (run (init 60 Map.empty) ?tr) = [0]"
    "length (spawned (run (init 60 Map.empty) ?tr)) = 3"
    "map snd (pendingRequests (run (init 60 Map.empty) ?tr)) = [7, 8, 9, 10]"
    by (simp_all add: run_defs)
  from reachable_state_invariant [of 60 Map.empty ?tr] h
  have "bridge_inv (run (init 60 Map.empty) ?tr)" "handle_open (run (init 60 Map.empty) ?tr)"
    by blast+
  with h v show ?thesis by blast
qed

text \<open>
  C1. The second call kills the first process, but the reply written by the second
  process resolves the first call: \<open>handleUserResponse\<close> takes the first key of the map,
  the oldest request, where its comment says the most recent. The request of the first
  session is fulfilled with data of the second session's stream, and the second request
  stays pending.
\<close>

theorem reply_on_second_stream_fulfils_first_request:
  "possible_run (init 60 Map.empty)
     [ToolCall 7 1000 spawns (ask_user_call (Value (js ''proj'')) (Value (js ''Anything?'')) Undefined),
      ToolCall 8 1001 spawns
        (ask_user_call (Value (js ''proj'')) (Value (js ''Pick one'')) (Value [js ''a'', js ''b''])),
      StdoutData 1 (js ''TEXT_FROM_RENDERER:b'')] \<and>
   killed (run (init 60 Map.empty)
     [ToolCall 7 1000 spawns (ask_user_call (Value (js ''proj'')) (Value (js ''Anything?'')) Undefined),
      ToolCall 8 1001 spawns
        (ask_user_call (Value (js ''proj'')) (Value (js ''Pick one'')) (Value [js ''a'', js ''b'']))]) =
     [0] \<and>
   pendingRequests (run (init 60 Map.empty)
     [ToolCall 7 1000 spawns (ask_user_call (Value (js ''proj'')) (Value (js ''Anything?'')) Undefined),
      ToolCall 8 1001 spawns
        (ask_user_call (Value (js ''proj'')) (Value (js ''Pick one'')) (Value [js ''a'', js ''b'']))]) =
     [(js ''1000'', 7), (js ''1001'', 8)] \<and>
   resolved (run (init 60 Map.empty)
     [ToolCall 7 1000 spawns (ask_user_call (Value (js ''proj'')) (Value (js ''Anything?'')) Undefined),
      ToolCall 8 1001 spawns
        (ask_user_call (Value (js ''proj'')) (Value (js ''Pick one'')) (Value [js ''a'', js ''b''])),
      StdoutData 1 (js ''TEXT_FROM_RENDERER:b'')]) = [(7, replied_result (js ''b''))] \<and>
   pendingRequests (run (init 60 Map.empty)
     [ToolCall 7 1000 spawns (ask_user_call (Value (js ''proj'')) (Value (js ''Anything?'')) Undefined),
      ToolCall 8 1001 spawns
        (ask_user_call (Value (js ''proj'')) (Value (js ''Pick one'')) (Value [js ''a'', js ''b''])),
      StdoutData 1 (js ''TEXT_FROM_RENDERER:b'')]) = [(js ''1001'', 8)]"
  by (simp add: run_defs replied_result_def)

end
